theory Spec2Isabelle
  imports Main "HOL-Library.AList"
begin

section \<open>DevBoard Kanban: the card list, its storage and its rendering\<close>

text \<open>
  A shallow embedding of \<^verbatim>\<open>src/script.js\<close>. The script keeps one mutable list
  \<^verbatim>\<open>cards\<close> of plain JavaScript objects, loads it from and saves it to one
  \<^verbatim>\<open>localStorage\<close> slot as JSON, and re-renders the four columns after every change.
  The objects are whatever \<^verbatim>\<open>JSON.parse\<close> returned or what the script's own object
  literals built, so cards are modelled as JavaScript values, not as a typed record.
\<close>

subsection \<open>JavaScript values\<close>

text \<open>
  Strings are lists of 8-bit characters; numbers are integers (the script never computes
  with a number it has read). An object is its list of own properties in insertion order.
\<close>

datatype jsval =
    JUndefined
  | JNull
  | JBool bool
  | JNum int
  | JStr string
  | JArr "jsval list"
  | JObj "(string \<times> jsval) list"

datatype error = TypeError | SyntaxError | SecurityError | QuotaExceededError

text \<open>
  Reading one of the card properties \<^verbatim>\<open>c.id\<close>, \<^verbatim>\<open>c.title\<close>,
  \<^verbatim>\<open>c.description\<close>, \<^verbatim>\<open>c.column\<close>, \<^verbatim>\<open>c.tags\<close>,
  \<^verbatim>\<open>c.dueDate\<close>: a TypeError on \<^verbatim>\<open>undefined\<close> and \<^verbatim>\<open>null\<close>, the own
  property of an object (\<^verbatim>\<open>undefined\<close> when it has none), and \<^verbatim>\<open>undefined\<close>
  on a primitive or an array, whose prototypes define none of these six names.
\<close>

fun getp :: "jsval \<Rightarrow> string \<Rightarrow> error + jsval" where
  "getp JUndefined k = Inl TypeError"
| "getp JNull k = Inl TypeError"
| "getp (JObj ps) k = Inr (case map_of ps k of None \<Rightarrow> JUndefined | Some v \<Rightarrow> v)"
| "getp v k = Inr JUndefined"

text \<open>
  The assignment \<^verbatim>\<open>card.k = v\<close>. The script only assigns to a card that
  \<^verbatim>\<open>cards.find(c => c.id === ...)\<close> returned, which is an object: an existing property
  keeps its place, a new one is added last.
\<close>

fun setp :: "jsval \<Rightarrow> string \<Rightarrow> jsval \<Rightarrow> jsval" where
  "setp (JObj ps) k v = JObj (AList.update k v ps)"
| "setp c k v = c"

fun truthy :: "jsval \<Rightarrow> bool" where
  "truthy JUndefined = False"
| "truthy JNull = False"
| "truthy (JBool b) = b"
| "truthy (JNum n) = (n \<noteq> 0)"
| "truthy (JStr s) = (s \<noteq> [])"
| "truthy (JArr xs) = True"
| "truthy (JObj ps) = True"

subsection \<open>Numbers and strings\<close>

definition digit_char :: "nat \<Rightarrow> char" where
  "digit_char d = ''0123456789abcdefghijklmnopqrstuvwxyz'' ! d"

text \<open>
  The digits of a non-negative integer in a radix from 2 to 36, most significant first.
\<close>

function digits :: "int \<Rightarrow> int \<Rightarrow> string" where
  "digits b n =
     (if b < 2 \<or> n < b then [digit_char (nat n)]
      else digits b (n div b) @ [digit_char (nat (n mod b))])"
  by pat_completeness auto
termination
proof (relation "measure (\<lambda>(b, n). nat n)")
  show "wf (measure (\<lambda>(b, n). nat n))" by simp
next
  fix b n :: int
  assume "\<not> (b < 2 \<or> n < b)"
  then have "2 \<le> b" "0 < n" by simp_all
  then have "n div b < n" by (simp add: int_div_less_self)
  moreover have "0 \<le> n div b" using \<open>2 \<le> b\<close> \<open>0 < n\<close> by (simp add: pos_imp_zdiv_nonneg_iff)
  ultimately show "((b, n div b), (b, n)) \<in> measure (\<lambda>(b, n). nat n)" by simp
qed

text \<open>\<^verbatim>\<open>Number.prototype.toString(radix)\<close> on an integer.\<close>

definition int_toString :: "int \<Rightarrow> int \<Rightarrow> string" where
  "int_toString radix n =
     (if n < 0 then CHR ''-'' # digits radix (- n) else digits radix n)"

text \<open>
  \<^verbatim>\<open>String.prototype.trim\<close>: the white space and line terminators of ECMAScript that
  fit in eight bits are TAB, LF, VT, FF, CR, SP and NBSP.
\<close>

definition is_space :: "char \<Rightarrow> bool" where
  "is_space c = (of_char c \<in> {9, 10, 11, 12, 13, 32, 160 :: nat})"

definition trim :: "string \<Rightarrow> string" where
  "trim s = rev (dropWhile is_space (rev (dropWhile is_space s)))"

text \<open>
  \<^verbatim>\<open>Array.prototype.join\<close> with a comma, and the string a value becomes as a property
  key, an attribute value or a text content (\<^verbatim>\<open>ToString\<close>). An array joins its
  elements, with \<^verbatim>\<open>null\<close> and \<^verbatim>\<open>undefined\<close> elements empty, and throws where
  an element does. An object is converted by its \<^verbatim>\<open>toString\<close> method: the one
  inherited from \<^verbatim>\<open>Object.prototype\<close> answers \<^verbatim>\<open>[object Object]\<close>; an own
  property of that name hides it, and since the values here come from \<^verbatim>\<open>JSON.parse\<close>
  or from the script's object literals, that property is no function, so the conversion
  goes on to \<^verbatim>\<open>valueOf\<close> (an own property that is no function either, or the inherited
  method, which returns the object itself) and ends in a TypeError.
\<close>

fun join_comma :: "string list \<Rightarrow> string" where
  "join_comma [] = []"
| "join_comma [s] = s"
| "join_comma (s # t # ts) = s @ '','' @ join_comma (t # ts)"

text \<open>The results of a list of conversions, or the first exception among them.\<close>

fun first_error :: "(error + 'a) list \<Rightarrow> error + 'a list" where
  "first_error [] = Inr []"
| "first_error (Inl e # rs) = Inl e"
| "first_error (Inr x # rs) = (case first_error rs of Inl e \<Rightarrow> Inl e | Inr xs \<Rightarrow> Inr (x # xs))"

fun ToString :: "jsval \<Rightarrow> error + string" where
  "ToString JUndefined = Inr ''undefined''"
| "ToString JNull = Inr ''null''"
| "ToString (JBool b) = Inr (if b then ''true'' else ''false'')"
| "ToString (JNum n) = Inr (int_toString 10 n)"
| "ToString (JStr s) = Inr s"
| "ToString (JArr xs) =
     (case first_error
             (map (\<lambda>v. if v = JUndefined \<or> v = JNull then Inr [] else ToString v) xs) of
        Inl e \<Rightarrow> Inl e
      | Inr strs \<Rightarrow> Inr (join_comma strs))"
| "ToString (JObj ps) =
     (case map_of ps ''toString'' of
        None \<Rightarrow> Inr ''[object Object]''
      | Some own \<Rightarrow> Inl TypeError)"

subsection \<open>Constants\<close>

definition COLUMNS :: "string list" where
  "COLUMNS = [''to-learn'', ''in-progress'', ''blocked'', ''completed'']"

text \<open>The object literal of a seed card: id, title, description, column, tags.\<close>

definition seed_card :: "string \<Rightarrow> string \<Rightarrow> string \<Rightarrow> string \<Rightarrow> string list \<Rightarrow> jsval" where
  "seed_card i t d c ts =
     JObj [(''id'', JStr i), (''title'', JStr t), (''description'', JStr d),
           (''column'', JStr c), (''tags'', JArr (map JStr ts))]"

definition DEFAULT_CARDS :: "jsval list" where
  "DEFAULT_CARDS =
    [seed_card ''1'' ''Setup Development Environment'' ''Install IDE, Node, and tooling.''
       ''completed'' [''DevOps''],
     seed_card ''2'' ''Build Kanban Board'' ''Create this board with drag and drop.''
       ''completed'' [''Front-End''],
     seed_card ''3'' ''Learn API Integration'' ''REST and async patterns.''
       ''completed'' [''Back-End''],
     seed_card ''4'' ''Deploy to GitHub Pages'' ''Make board accessible online''
       ''completed'' [''DevOps''],
     seed_card ''10'' ''Week 2: API Integration'' ''Learn to fetch external data''
       ''to-learn'' [''Back-End''],
     seed_card ''6'' ''Feature - Card Tags'' ''Categorize cards with tags''
       ''complete'' [''Front-End''],
     seed_card ''7'' ''Feature - due dates'' ''Insights when cards are due''
       ''to-learn'' [''Front-End''],
     seed_card ''8'' ''Feature - Priority levels'' ''Prioritize cards based on importance''
       ''to-learn'' [''Front-End''],
     seed_card ''9'' ''Feature - Search filter'' ''Search cards by title or description''
       ''to-learn'' [''Front-End'']]"

subsection \<open>The storage slot\<close>

text \<open>
  \<^verbatim>\<open>localStorage\<close>, \<^verbatim>\<open>JSON.stringify\<close> and \<^verbatim>\<open>JSON.parse\<close> belong to the
  platform. The text in the slot is modelled by what \<^verbatim>\<open>JSON.parse\<close> makes of it: the
  JSON text of a value, the empty string, or any other text (on which \<^verbatim>\<open>JSON.parse\<close>
  throws a SyntaxError). A browser may refuse every access to the storage (SecurityError)
  or refuse to write (QuotaExceededError); \<open>denied\<close> and \<open>full\<close> say which.
\<close>

datatype slot_text = Json_text jsval | Empty_text | Other_text

record storage =
  slot :: "slot_text option"
  denied :: bool
  full :: bool

definition getItem :: "storage \<Rightarrow> error + slot_text option" where
  "getItem ls = (if denied ls then Inl SecurityError else Inr (slot ls))"

definition setItem :: "storage \<Rightarrow> slot_text \<Rightarrow> error + storage" where
  "setItem ls t =
     (if denied ls then Inl SecurityError
      else if full ls then Inl QuotaExceededError
      else Inr (ls\<lparr>slot := Some t\<rparr>))"

text \<open>
  What \<^verbatim>\<open>JSON.stringify\<close> keeps of a value: a property whose value is
  \<^verbatim>\<open>undefined\<close> is left out, an \<^verbatim>\<open>undefined\<close> array element becomes
  \<^verbatim>\<open>null\<close>.
\<close>

fun to_json :: "jsval \<Rightarrow> jsval" where
  "to_json (JArr xs) = JArr (map (\<lambda>v. if v = JUndefined then JNull else to_json v) xs)"
| "to_json (JObj ps) =
     JObj (map (\<lambda>(k, v). (k, to_json v)) (filter (\<lambda>(k, v). v \<noteq> JUndefined) ps))"
| "to_json v = v"

definition JSON_stringify :: "jsval \<Rightarrow> slot_text" where
  "JSON_stringify v = Json_text (to_json v)"

definition JSON_parse :: "slot_text \<Rightarrow> error + jsval" where
  "JSON_parse t = (case t of Json_text v \<Rightarrow> Inr v | Empty_text \<Rightarrow> Inl SyntaxError
                   | Other_text \<Rightarrow> Inl SyntaxError)"

text \<open>
  \<^verbatim>\<open>loadFromStorage\<close>: every exception of its body is caught and answered with the
  defaults; \<^verbatim>\<open>!raw\<close> holds for \<^verbatim>\<open>null\<close> (no item) and for the empty string.
\<close>

definition loadFromStorage :: "storage \<Rightarrow> jsval list" where
  "loadFromStorage ls =
     (case getItem ls of
        Inl e \<Rightarrow> DEFAULT_CARDS
      | Inr None \<Rightarrow> DEFAULT_CARDS
      | Inr (Some raw) \<Rightarrow>
          if raw = Empty_text then DEFAULT_CARDS
          else (case JSON_parse raw of
                  Inl e \<Rightarrow> DEFAULT_CARDS
                | Inr (JArr parsed) \<Rightarrow> if length parsed = 0 then DEFAULT_CARDS else parsed
                | Inr other \<Rightarrow> DEFAULT_CARDS))"

subsection \<open>The state of the page\<close>

text \<open>
  The rendered board: for each column name, the card elements in its
  \<^verbatim>\<open>.column-cards\<close> container, or \<open>None\<close> when the page has no such container (the
  page's HTML is not part of the script). An element stands for the card it was built from.
\<close>

datatype element = Card_element jsval

type_synonym board = "string \<Rightarrow> element list option"

record state =
  cards :: "jsval list"
  editingCardId :: "string option"
  localStorage :: storage
  board :: board

text \<open>
  A handler returns the state it leaves and the exception it let escape, if any: what it
  assigned before throwing stays assigned.
\<close>

type_synonym outcome = "error option \<times> state"

text \<open>\<^verbatim>\<open>saveToStorage\<close>: a failed write is logged and otherwise ignored.\<close>

definition saveToStorage :: "state \<Rightarrow> state" where
  "saveToStorage s =
     (case setItem (localStorage s) (JSON_stringify (JArr (cards s))) of
        Inl e \<Rightarrow> s
      | Inr ls \<Rightarrow> s\<lparr>localStorage := ls\<rparr>)"

text \<open>
  \<^verbatim>\<open>generateId\<close>: \<open>now\<close> is \<^verbatim>\<open>Date.now()\<close> and \<open>random36\<close> is
  \<^verbatim>\<open>Math.random().toString(36)\<close>, both given by the environment.
\<close>

definition generateId :: "int \<Rightarrow> string \<Rightarrow> string" where
  "generateId now random36 = int_toString 36 now @ drop 2 random36"

text \<open>
  \<^verbatim>\<open>cards.find(c => c.id === cardId)\<close>: the index of the first card whose id is the
  string \<open>cardId\<close>; reading the id of a \<^verbatim>\<open>null\<close> element throws.
\<close>

fun find_card :: "string \<Rightarrow> jsval list \<Rightarrow> error + nat option" where
  "find_card cardId [] = Inr None"
| "find_card cardId (c # cs) =
     (case getp c ''id'' of
        Inl e \<Rightarrow> Inl e
      | Inr v \<Rightarrow>
          if v = JStr cardId then Inr (Some 0)
          else (case find_card cardId cs of
                  Inl e \<Rightarrow> Inl e
                | Inr None \<Rightarrow> Inr None
                | Inr (Some i) \<Rightarrow> Inr (Some (Suc i))))"

text \<open>\<^verbatim>\<open>cards.filter(c => c.id !== cardId)\<close>.\<close>

fun filter_other_ids :: "string \<Rightarrow> jsval list \<Rightarrow> error + jsval list" where
  "filter_other_ids cardId [] = Inr []"
| "filter_other_ids cardId (c # cs) =
     (case getp c ''id'' of
        Inl e \<Rightarrow> Inl e
      | Inr v \<Rightarrow>
          (case filter_other_ids cardId cs of
             Inl e \<Rightarrow> Inl e
           | Inr rest \<Rightarrow> Inr (if v = JStr cardId then rest else c # rest)))"

subsection \<open>Rendering\<close>

text \<open>
  \<^verbatim>\<open>createCardElement\<close> builds the element from the card's fields. What can throw in
  it, in the order of the source: the conversion of \<^verbatim>\<open>card.id\<close> to the attribute
  \<^verbatim>\<open>data-card-id\<close>, of \<^verbatim>\<open>card.title\<close> to a text content, of each element of
  an array \<^verbatim>\<open>card.tags\<close> to a text content and an attribute,
  \<^verbatim>\<open>(card.description || '').trim()\<close> when the description is truthy and not a string
  (if its conversion to a text content has not thrown before), and
  \<^verbatim>\<open>String(card.dueDate)\<close> for a truthy due date. The label of the due date is text
  inside the element and throws nothing.
\<close>

definition createCardElement :: "jsval \<Rightarrow> error + element" where
  "createCardElement c =
     (case getp c ''id'' of
        Inl e \<Rightarrow> Inl e
      | Inr i \<Rightarrow>
     (case ToString i of
        Inl e \<Rightarrow> Inl e
      | Inr id_attribute \<Rightarrow>
     (case getp c ''title'' of
        Inl e \<Rightarrow> Inl e
      | Inr t \<Rightarrow>
     (case ToString t of
        Inl e \<Rightarrow> Inl e
      | Inr title_text \<Rightarrow>
     (case getp c ''tags'' of
        Inl e \<Rightarrow> Inl e
      | Inr tags \<Rightarrow>
     (case (case tags of JArr ts \<Rightarrow> first_error (map ToString ts) | other \<Rightarrow> Inr []) of
        Inl e \<Rightarrow> Inl e
      | Inr tag_texts \<Rightarrow>
     (case getp c ''description'' of
        Inl e \<Rightarrow> Inl e
      | Inr d \<Rightarrow>
     (case (if truthy d then ToString d else Inr []) of
        Inl e \<Rightarrow> Inl e
      | Inr description_text \<Rightarrow>
          if truthy d \<and> (case d of JStr str \<Rightarrow> False | other \<Rightarrow> True) then Inl TypeError
          else
     (case getp c ''dueDate'' of
        Inl e \<Rightarrow> Inl e
      | Inr due \<Rightarrow>
     (case (if truthy due then ToString due else Inr []) of
        Inl e \<Rightarrow> Inl e
      | Inr due_text \<Rightarrow> Inr (Card_element c)))))))))))"

text \<open>
  \<^verbatim>\<open>renderBoard\<close> collects the containers in an object literal \<^verbatim>\<open>{}\<close>, so
  \<^verbatim>\<open>containers[card.column]\<close> finds an own property (a container) or, for these
  names, a property inherited from \<^verbatim>\<open>Object.prototype\<close>: a function or object that is
  truthy and has no \<^verbatim>\<open>appendChild\<close>.
\<close>

definition OBJECT_PROTOTYPE_KEYS :: "string list" where
  "OBJECT_PROTOTYPE_KEYS =
     [''constructor'', ''hasOwnProperty'', ''isPrototypeOf'', ''propertyIsEnumerable'',
      ''toLocaleString'', ''toString'', ''valueOf'', ''__proto__'', ''__defineGetter__'',
      ''__defineSetter__'', ''__lookupGetter__'', ''__lookupSetter__'']"

text \<open>
  The loop \<^verbatim>\<open>cards.forEach(c => ...)\<close> over the containers \<open>own\<close>; an exception
  ends it and leaves the board as far as it was filled.
\<close>

fun render_cards :: "string list \<Rightarrow> jsval list \<Rightarrow> board \<Rightarrow> error option \<times> board" where
  "render_cards own [] b = (None, b)"
| "render_cards own (c # rest) b =
     (case getp c ''column'' of
        Inl e \<Rightarrow> (Some e, b)
      | Inr col \<Rightarrow>
          (case ToString col of
             Inl e \<Rightarrow> (Some e, b)
           | Inr key \<Rightarrow>
               if key \<in> set own then
                 (case createCardElement c of
                    Inl e \<Rightarrow> (Some e, b)
                  | Inr el \<Rightarrow>
                      render_cards own rest
                        (b(key \<mapsto> (case b key of None \<Rightarrow> [] | Some els \<Rightarrow> els) @ [el])))
               else if key \<in> set OBJECT_PROTOTYPE_KEYS then
                 (case createCardElement c of
                    Inl e \<Rightarrow> (Some e, b)
                  | Inr el \<Rightarrow> (Some TypeError, b))
               else render_cards own rest b))"

definition renderBoard :: "state \<Rightarrow> outcome" where
  "renderBoard s =
     (let own = filter (\<lambda>col. board s col \<noteq> None) COLUMNS;
          cleared = (\<lambda>col. if col \<in> set own then Some [] else board s col);
          r = render_cards own (cards s) cleared
      in (fst r, s\<lparr>board := snd r\<rparr>))"

subsection \<open>The modal and the handlers\<close>

text \<open>
  The page is taken to hold the modal and the inputs the script reads without a guard.
  \<^verbatim>\<open>openModal\<close> and \<^verbatim>\<open>closeModal\<close> leave edit mode (what else they do is to the
  form and the modal's classes); \<^verbatim>\<open>openEditModal\<close> enters it for a card it finds.
\<close>

definition openModal :: "state \<Rightarrow> state" where
  "openModal s = s\<lparr>editingCardId := None\<rparr>"

definition closeModal :: "state \<Rightarrow> state" where
  "closeModal s = s\<lparr>editingCardId := None\<rparr>"

definition openEditModal :: "string \<Rightarrow> state \<Rightarrow> outcome" where
  "openEditModal cardId s =
     (case find_card cardId (cards s) of
        Inl e \<Rightarrow> (Some e, s)
      | Inr None \<Rightarrow> (None, s)
      | Inr (Some i) \<Rightarrow> (None, s\<lparr>editingCardId := Some cardId\<rparr>))"

text \<open>
  What the form holds when it is submitted: the two text inputs, every tag checkbox with
  its checked flag and value, and the due date input (\<open>None\<close> when the page has none).
\<close>

record form =
  title_value :: string
  description_value :: string
  tag_checkboxes :: "(bool \<times> string) list"
  due_date_value :: "string option"

text \<open>
  \<^verbatim>\<open>handleAddCardSubmit\<close>, for both modes of the modal. \<open>now\<close> and \<open>random36\<close>
  are what \<^verbatim>\<open>generateId\<close> reads from the clock and the random generator.
\<close>

definition handleAddCardSubmit :: "int \<Rightarrow> string \<Rightarrow> form \<Rightarrow> state \<Rightarrow> outcome" where
  "handleAddCardSubmit now random36 f s =
     (let title = trim (title_value f) in
      if title = [] then (None, s)
      else
        let description = trim (description_value f);
            checkedTags = filter fst (tag_checkboxes f);
            tags = map snd checkedTags
        in
        if length tags > 2 then (None, s)
        else
          let dueDate = (case due_date_value f of
                           None \<Rightarrow> []
                         | Some v \<Rightarrow> if v = [] then [] else trim v);
              due = (if dueDate = [] then JUndefined else JStr dueDate)
          in
          (case editingCardId s of
             Some (e # es) \<Rightarrow>
               (case find_card (e # es) (cards s) of
                  Inl err \<Rightarrow> (Some err, s)
                | Inr None \<Rightarrow> (None, closeModal s)
                | Inr (Some i) \<Rightarrow>
                    let edited = setp (setp (setp (setp (cards s ! i)
                                 ''title'' (JStr title))
                                 ''description'' (JStr description))
                                 ''tags'' (JArr (map JStr tags)))
                                 ''dueDate'' due;
                        r = renderBoard (saveToStorage (s\<lparr>cards := (cards s)[i := edited]\<rparr>))
                    in (case fst r of
                          Some err \<Rightarrow> r
                        | None \<Rightarrow> (None, closeModal (snd r))))
           | other \<Rightarrow>
               let newCard = JObj [(''id'', JStr (generateId now random36)),
                                   (''title'', JStr title),
                                   (''description'', JStr description),
                                   (''tags'', JArr (map JStr tags)),
                                   (''column'', JStr ''to-learn''),
                                   (''dueDate'', due)];
                   r = renderBoard (saveToStorage (s\<lparr>cards := cards s @ [newCard]\<rparr>))
               in (case fst r of
                     Some err \<Rightarrow> r
                   | None \<Rightarrow> (None, closeModal (snd r)))))"

text \<open>\<^verbatim>\<open>deleteCard\<close>: filter, save, render.\<close>

definition deleteCard :: "string \<Rightarrow> state \<Rightarrow> outcome" where
  "deleteCard cardId s =
     (case filter_other_ids cardId (cards s) of
        Inl e \<Rightarrow> (Some e, s)
      | Inr kept \<Rightarrow> renderBoard (saveToStorage (s\<lparr>cards := kept\<rparr>)))"

text \<open>
  \<^verbatim>\<open>handleDrop\<close>: \<open>columnId\<close> is what \<^verbatim>\<open>getColumnId(e.target)\<close> returned (the
  \<^verbatim>\<open>data-column\<close> attribute of the enclosing column, or \<^verbatim>\<open>null\<close>), \<open>cardId\<close> the
  drag data, which is the empty string when \<^verbatim>\<open>handleDragStart\<close> stored none.
\<close>

definition handleDrop :: "string option \<Rightarrow> string \<Rightarrow> state \<Rightarrow> outcome" where
  "handleDrop columnId cardId s =
     (case columnId of
        None \<Rightarrow> (None, s)
      | Some col \<Rightarrow>
          if col = [] \<or> col \<notin> set COLUMNS then (None, s)
          else if cardId = [] then (None, s)
          else (case find_card cardId (cards s) of
                  Inl e \<Rightarrow> (Some e, s)
                | Inr None \<Rightarrow> (None, s)
                | Inr (Some i) \<Rightarrow>
                    renderBoard (saveToStorage
                      (s\<lparr>cards := (cards s)[i := setp (cards s ! i) ''column'' (JStr col)]\<rparr>))))"

text \<open>
  \<^verbatim>\<open>init\<close>: load, write back, render. \<open>ls\<close> is the storage the browser has and
  \<open>page\<close> the containers of the page.
\<close>

definition init :: "storage \<Rightarrow> board \<Rightarrow> outcome" where
  "init ls page =
     renderBoard (saveToStorage
       \<lparr>cards = loadFromStorage ls, editingCardId = None, localStorage = ls, board = page\<rparr>)"

text \<open>
  The events that \<^verbatim>\<open>bindEvents\<close> wires to the state: the Add Card button, the form's
  submit, a drop on the board, a click on a card's gear button (with the id its
  \<^verbatim>\<open>data-card-id\<close> holds), the modal's delete button (with the answer to
  \<^verbatim>\<open>confirm\<close>), and the ways to close the modal. \<^verbatim>\<open>init\<close> binds them before it
  renders, so they run after any \<^verbatim>\<open>init\<close>.
\<close>

datatype event =
    AddCardClick
  | Submit int string form
  | DropOn "string option" string
  | GearClick string
  | ModalDelete bool
  | ModalClose

definition dispatch :: "event \<Rightarrow> state \<Rightarrow> outcome" where
  "dispatch ev s =
     (case ev of
        AddCardClick \<Rightarrow> (None, openModal s)
      | Submit now random36 f \<Rightarrow> handleAddCardSubmit now random36 f s
      | DropOn columnId cardId \<Rightarrow> handleDrop columnId cardId s
      | GearClick cardId \<Rightarrow> if cardId = [] then (None, s) else openEditModal cardId s
      | ModalDelete confirmed \<Rightarrow>
          (case editingCardId s of
             Some (c # cs) \<Rightarrow>
               if confirmed then
                 (let r = deleteCard (c # cs) s
                  in case fst r of Some err \<Rightarrow> r | None \<Rightarrow> (None, closeModal (snd r)))
               else (None, s)
           | other \<Rightarrow> (None, s))
      | ModalClose \<Rightarrow> (None, closeModal s))"

text \<open>The states the page can be in, started on a storage \<open>ls\<close> and a page \<open>page\<close>.\<close>

inductive reachable :: "storage \<Rightarrow> board \<Rightarrow> state \<Rightarrow> bool" for ls page where
  start: "reachable ls page (snd (init ls page))"
| step: "reachable ls page s \<Longrightarrow> reachable ls page (snd (dispatch ev s))"

subsection \<open>Due dates\<close>

text \<open>
  Time values are integers, milliseconds since the epoch. \<^verbatim>\<open>new Date(str)\<close> is modelled
  on the date-only form \<^verbatim>\<open>YYYY-MM-DD\<close> that the function's comment names and the
  form's date input produces, with a day that the month has: ECMAScript reads it as
  midnight UTC of that day. \<open>Date_parse\<close> answers \<open>None\<close> for every other string.
  That is what the script gets for a string no browser reads as a date; a browser reads
  more forms than this one, and some carry a day past the end of the month over into the
  next month, so for such strings \<open>None\<close> only says that the string is outside this
  model.
\<close>

definition MS_PER_DAY :: int where
  "MS_PER_DAY = 1000 * 60 * 60 * 24"

definition is_leap :: "int \<Rightarrow> bool" where
  "is_leap y = (y mod 4 = 0 \<and> (y mod 400 = 0 \<or> y mod 100 \<noteq> 0))"

definition days_in_month :: "int \<Rightarrow> int \<Rightarrow> int" where
  "days_in_month y m =
     (if m = 2 then (if is_leap y then 29 else 28)
      else if m = 4 \<or> m = 6 \<or> m = 9 \<or> m = 11 then 30 else 31)"

text \<open>The number of days from 1970-01-01 to a day of the proleptic Gregorian calendar.\<close>

definition days_from_civil :: "int \<Rightarrow> int \<Rightarrow> int \<Rightarrow> int" where
  "days_from_civil y m d =
     (let y' = (if m \<le> 2 then y - 1 else y);
          era = y' div 400;
          yoe = y' - era * 400;
          doy = (153 * (if m > 2 then m - 3 else m + 9) + 2) div 5 + d - 1;
          doe = yoe * 365 + yoe div 4 - yoe div 100 + doy
      in era * 146097 + doe - 719468)"

definition digit_value :: "char \<Rightarrow> int option" where
  "digit_value c =
     (if 48 \<le> (of_char c :: nat) \<and> (of_char c :: nat) \<le> 57
      then Some (int (of_char c) - 48) else None)"

fun decimal :: "string \<Rightarrow> int \<Rightarrow> int option" where
  "decimal [] acc = Some acc"
| "decimal (c # cs) acc =
     (case digit_value c of None \<Rightarrow> None | Some d \<Rightarrow> decimal cs (10 * acc + d))"

definition Date_parse :: "string \<Rightarrow> int option" where
  "Date_parse str =
     (if length str = 10 \<and> str ! 4 = CHR ''-'' \<and> str ! 7 = CHR ''-'' then
        (case (decimal (take 4 str) 0, decimal (take 2 (drop 5 str)) 0, decimal (drop 8 str) 0) of
           (Some y, Some m, Some d) \<Rightarrow>
             if 1 \<le> m \<and> m \<le> 12 \<and> 1 \<le> d \<and> d \<le> days_in_month y m
             then Some (days_from_civil y m d * MS_PER_DAY) else None
         | other \<Rightarrow> None)
      else None)"

text \<open>
  \<^verbatim>\<open>date.setHours(0, 0, 0, 0)\<close>: the start of the local day that holds the time
  \<open>t\<close>, in a zone whose local time is \<open>tz\<close> milliseconds ahead of UTC. The offset
  is one number for both dates of a label, so a zone is modelled between its changes of
  offset: two dates on different sides of a daylight saving change are outside this model.
\<close>

definition setHours0 :: "int \<Rightarrow> int \<Rightarrow> int" where
  "setHours0 tz t = t - (t + tz) mod MS_PER_DAY"

text \<open>\<^verbatim>\<open>Math.round(a / b)\<close> for integers, \<open>b\<close> positive: halves round up.\<close>

definition Math_round_div :: "int \<Rightarrow> int \<Rightarrow> int" where
  "Math_round_div a b = (2 * a + b) div (2 * b)"

text \<open>
  \<^verbatim>\<open>getDueDateLabel\<close>, with the zone offset \<open>tz\<close> and the current time \<open>now\<close>
  (\<^verbatim>\<open>new Date()\<close>) of the browser.
\<close>

definition getDueDateLabel :: "int \<Rightarrow> int \<Rightarrow> string \<Rightarrow> string" where
  "getDueDateLabel tz now dueDateStr =
     (if dueDateStr = [] then []
      else (case Date_parse dueDateStr of
              None \<Rightarrow> []
            | Some due \<Rightarrow>
                let today = setHours0 tz now;
                    due0 = setHours0 tz due;
                    diffMs = due0 - today;
                    diffDays = Math_round_div diffMs MS_PER_DAY
                in if diffDays > 0 then
                     ''Due in '' @ int_toString 10 diffDays @ '' day'' @
                       (if diffDays = 1 then [] else ''s'')
                   else if diffDays = 0 then ''Due today''
                   else if abs diffDays = 1 then ''1 day overdue''
                   else int_toString 10 (abs diffDays) @ '' days overdue''))"

subsection \<open>The specification's vocabulary\<close>

text \<open>
  The invariant of the specification's data model: the \<^verbatim>\<open>column\<close> of a card is one of
  the four names of \<open>COLUMNS\<close>.
\<close>

definition column_valid :: "jsval \<Rightarrow> bool" where
  "column_valid c =
     (case getp c ''column'' of Inr (JStr col) \<Rightarrow> col \<in> set COLUMNS | other \<Rightarrow> False)"

text \<open>
  A Card-shaped record, after the specification's data model: an object (each property
  name once) whose \<^verbatim>\<open>id\<close>, \<^verbatim>\<open>title\<close>, \<^verbatim>\<open>description\<close> and \<^verbatim>\<open>column\<close> are
  strings, whose \<^verbatim>\<open>tags\<close> is a sequence of strings and whose \<^verbatim>\<open>dueDate\<close> is a
  string or absent. \<open>CARD_FIELDS\<close> are the six field names.
\<close>

fun is_JStr :: "jsval \<Rightarrow> bool" where
  "is_JStr (JStr s) = True"
| "is_JStr v = False"

definition CARD_FIELDS :: "string list" where
  "CARD_FIELDS = [''id'', ''title'', ''description'', ''column'', ''tags'', ''dueDate'']"

fun spec_Card_shaped :: "jsval \<Rightarrow> bool" where
  "spec_Card_shaped (JObj ps) =
     (distinct (map fst ps)
      \<and> (case map_of ps ''id'' of Some (JStr i) \<Rightarrow> True | other \<Rightarrow> False)
      \<and> (case map_of ps ''title'' of Some (JStr t) \<Rightarrow> True | other \<Rightarrow> False)
      \<and> (case map_of ps ''description'' of Some (JStr d) \<Rightarrow> True | other \<Rightarrow> False)
      \<and> (case map_of ps ''column'' of Some (JStr c) \<Rightarrow> True | other \<Rightarrow> False)
      \<and> (case map_of ps ''tags'' of Some (JArr ts) \<Rightarrow> list_all is_JStr ts | other \<Rightarrow> False)
      \<and> (case map_of ps ''dueDate'' of
            None \<Rightarrow> True | Some JUndefined \<Rightarrow> True | Some (JStr d) \<Rightarrow> True
          | Some other \<Rightarrow> False))"
| "spec_Card_shaped v = False"

text \<open>
  The label of the specification for a due date \<open>n\<close> calendar days after today: "Due in
  n day(s)" for positive \<open>n\<close>, "Due today" for zero, "n day(s) overdue" with the absolute
  value for negative \<open>n\<close>, singular for one day.
\<close>

definition spec_days_label :: "int \<Rightarrow> string" where
  "spec_days_label n =
     (if 0 < n then ''Due in '' @ int_toString 10 n @ (if n = 1 then '' day'' else '' days'')
      else if n = 0 then ''Due today''
      else int_toString 10 (- n) @ (if n = - 1 then '' day overdue'' else '' days overdue''))"

text \<open>
  The key under which \<^verbatim>\<open>renderBoard\<close> looks a card's container up, and the cards it
  renders without an exception: the column can be read, becomes a property key and is no
  name of \<^verbatim>\<open>Object.prototype\<close>, and \<^verbatim>\<open>createCardElement\<close> returns an element.
\<close>

definition column_key :: "jsval \<Rightarrow> string" where
  "column_key c =
     (case getp c ''column'' of
        Inl e \<Rightarrow> []
      | Inr v \<Rightarrow> (case ToString v of Inl e \<Rightarrow> [] | Inr key \<Rightarrow> key))"

definition renders :: "jsval \<Rightarrow> bool" where
  "renders c =
     ((case getp c ''column'' of
         Inl e \<Rightarrow> False
       | Inr v \<Rightarrow> (case ToString v of
                     Inl e \<Rightarrow> False
                   | Inr key \<Rightarrow> key \<notin> set OBJECT_PROTOTYPE_KEYS))
      \<and> createCardElement c = Inr (Card_element c))"

text \<open>
  The card that the add branch of \<^verbatim>\<open>handleAddCardSubmit\<close> builds from a form: its
  object literal, with \<^verbatim>\<open>dueDate: dueDate || undefined\<close>.
\<close>

definition form_due :: "form \<Rightarrow> jsval" where
  "form_due f =
     (let dueDate = (case due_date_value f of
                       None \<Rightarrow> []
                     | Some v \<Rightarrow> if v = [] then [] else trim v)
      in if dueDate = [] then JUndefined else JStr dueDate)"

definition form_tags :: "form \<Rightarrow> string list" where
  "form_tags f = map snd (filter fst (tag_checkboxes f))"

definition new_card :: "int \<Rightarrow> string \<Rightarrow> form \<Rightarrow> jsval" where
  "new_card now random36 f =
     JObj [(''id'', JStr (generateId now random36)),
           (''title'', JStr (trim (title_value f))),
           (''description'', JStr (trim (description_value f))),
           (''tags'', JArr (map JStr (form_tags f))),
           (''column'', JStr ''to-learn''),
           (''dueDate'', form_due f)]"

text \<open>
  The four assignments of the edit branch, \<^verbatim>\<open>card.title = title\<close> to
  \<^verbatim>\<open>card.dueDate = dueDate || undefined\<close>, applied to a card.
\<close>

definition edited_card :: "form \<Rightarrow> jsval \<Rightarrow> jsval" where
  "edited_card f c =
     setp (setp (setp (setp c
       ''title'' (JStr (trim (title_value f))))
       ''description'' (JStr (trim (description_value f))))
       ''tags'' (JArr (map JStr (form_tags f))))
       ''dueDate'' (form_due f)"

subsection \<open>Example inputs\<close>

text \<open>A browser with nothing stored, and a page that has the four column containers.\<close>

definition empty_storage :: storage where
  "empty_storage = \<lparr>slot = None, denied = False, full = False\<rparr>"

definition four_columns_page :: board where
  "four_columns_page = (\<lambda>col. if col \<in> set COLUMNS then Some [] else None)"

text \<open>The form of the specification's example: a card "Learn Rust" tagged Back-End.\<close>

definition learn_rust_form :: form where
  "learn_rust_form =
     \<lparr>title_value = ''Learn Rust'', description_value = [],
      tag_checkboxes = [(False, ''Front-End''), (True, ''Back-End''), (False, ''DevOps'')],
      due_date_value = Some []\<rparr>"

section \<open>Properties\<close>

subsection \<open>What saving and rendering leave alone\<close>

lemma cards_saveToStorage [simp]: "cards (saveToStorage s) = cards s"
  by (simp add: saveToStorage_def split: sum.splits)

lemma editingCardId_saveToStorage [simp]: "editingCardId (saveToStorage s) = editingCardId s"
  by (simp add: saveToStorage_def split: sum.splits)

lemma cards_renderBoard [simp]: "cards (snd (renderBoard s)) = cards s"
  by (simp add: renderBoard_def Let_def)

lemma localStorage_renderBoard [simp]: "localStorage (snd (renderBoard s)) = localStorage s"
  by (simp add: renderBoard_def Let_def)

lemma cards_closeModal [simp]: "cards (closeModal s) = cards s"
  by (simp add: closeModal_def)

lemma cards_init: "cards (snd (init ls page)) = loadFromStorage ls"
  by (simp add: init_def)

subsection \<open>Loading\<close>

lemma loadFromStorage_cases:
  "loadFromStorage ls =
     (if denied ls then DEFAULT_CARDS
      else case slot ls of
             Some (Json_text (JArr (x # xs))) \<Rightarrow> x # xs
           | other \<Rightarrow> DEFAULT_CARDS)"
  by (simp add: loadFromStorage_def getItem_def JSON_parse_def
           split: option.splits slot_text.splits jsval.splits list.splits)

lemma loadFromStorage_absent:
  "loadFromStorage \<lparr>slot = None, denied = False, full = False\<rparr> = DEFAULT_CARDS"
  by (simp add: loadFromStorage_cases)

text \<open>
  C1 (the column of every card of the store is one of the four fixed values, in every
  reachable state and in particular in the seed dataset). The script breaks it in its
  first state: with nothing stored, \<^verbatim>\<open>init\<close> leaves the nine default cards in the store,
  and the sixth of them, the card with id 6, has the column \<^verbatim>\<open>complete\<close>, which is not
  one of \<open>COLUMNS\<close>.
\<close>

theorem seed_card_6_column_not_in_COLUMNS:
  "cards (snd (init \<lparr>slot = None, denied = False, full = False\<rparr> page)) = DEFAULT_CARDS
   \<and> getp (DEFAULT_CARDS ! 5) ''id'' = Inr (JStr ''6'')
   \<and> getp (DEFAULT_CARDS ! 5) ''column'' = Inr (JStr ''complete'')
   \<and> ''complete'' \<notin> set COLUMNS
   \<and> \<not> list_all column_valid DEFAULT_CARDS"
proof -
  have "getp (DEFAULT_CARDS ! 5) ''id'' = Inr (JStr ''6'')" by code_simp
  moreover have "getp (DEFAULT_CARDS ! 5) ''column'' = Inr (JStr ''complete'')" by code_simp
  moreover have "''complete'' \<notin> set COLUMNS" by (simp add: COLUMNS_def)
  moreover have "\<not> list_all column_valid DEFAULT_CARDS" by code_simp
  ultimately show ?thesis by (simp add: cards_init loadFromStorage_absent)
qed

subsection \<open>The seed dataset\<close>

lemma length_DEFAULT_CARDS: "length DEFAULT_CARDS = 9"
  by (simp add: DEFAULT_CARDS_def)

lemma seed_columns:
  "map (\<lambda>c. getp c ''column'') DEFAULT_CARDS =
     [Inr (JStr ''completed''), Inr (JStr ''completed''), Inr (JStr ''completed''),
      Inr (JStr ''completed''), Inr (JStr ''to-learn''), Inr (JStr ''complete''),
      Inr (JStr ''to-learn''), Inr (JStr ''to-learn''), Inr (JStr ''to-learn'')]"
  by (simp add: DEFAULT_CARDS_def seed_card_def)

text \<open>
  C2, as amended. \<^verbatim>\<open>loadFromStorage\<close> has no exceptional result: it is a total function
  to card lists. Whenever the storage cannot be read, holds no item, or holds a text that
  is not the JSON of a non-empty array, it returns the nine default cards; among them are
  cards of the columns \<^verbatim>\<open>to-learn\<close> and \<^verbatim>\<open>completed\<close> and none of
  \<^verbatim>\<open>in-progress\<close> or \<^verbatim>\<open>blocked\<close>. The elements of a stored array are not
  inspected, so nothing is said about their shape.
\<close>

theorem load_falls_back_to_seed:
  assumes "denied ls \<or> slot ls = None
           \<or> \<not> (\<exists>xs. xs \<noteq> [] \<and> slot ls = Some (Json_text (JArr xs)))"
  shows "loadFromStorage ls = DEFAULT_CARDS
         \<and> length DEFAULT_CARDS = 9
         \<and> Inr (JStr ''to-learn'') \<in> set (map (\<lambda>c. getp c ''column'') DEFAULT_CARDS)
         \<and> Inr (JStr ''completed'') \<in> set (map (\<lambda>c. getp c ''column'') DEFAULT_CARDS)
         \<and> Inr (JStr ''in-progress'') \<notin> set (map (\<lambda>c. getp c ''column'') DEFAULT_CARDS)
         \<and> Inr (JStr ''blocked'') \<notin> set (map (\<lambda>c. getp c ''column'') DEFAULT_CARDS)"
proof -
  have "loadFromStorage ls = DEFAULT_CARDS"
    using assms
    by (auto simp: loadFromStorage_cases
             split: option.splits slot_text.splits jsval.splits list.splits)
  then show ?thesis
    unfolding seed_columns by (simp add: length_DEFAULT_CARDS)
qed

text \<open>The fallback at a slot that holds text which is not JSON.\<close>

theorem load_falls_back_to_seed_witness:
  "loadFromStorage \<lparr>slot = Some Other_text, denied = False, full = False\<rparr> = DEFAULT_CARDS
   \<and> length DEFAULT_CARDS = 9
   \<and> Inr (JStr ''to-learn'') \<in> set (map (\<lambda>c. getp c ''column'') DEFAULT_CARDS)
   \<and> Inr (JStr ''completed'') \<in> set (map (\<lambda>c. getp c ''column'') DEFAULT_CARDS)
   \<and> Inr (JStr ''in-progress'') \<notin> set (map (\<lambda>c. getp c ''column'') DEFAULT_CARDS)
   \<and> Inr (JStr ''blocked'') \<notin> set (map (\<lambda>c. getp c ''column'') DEFAULT_CARDS)"
  by (rule load_falls_back_to_seed) simp

text \<open>
  C2 as the specification states it fails twice. A slot that holds the JSON text
  \<^verbatim>\<open>[1]\<close>, a non-empty array whose element is no Card-shaped record, is returned as it
  is, not replaced by the seed; and no seed card is in \<^verbatim>\<open>in-progress\<close> or
  \<^verbatim>\<open>blocked\<close>, so the seed does not span the four columns.
\<close>

theorem load_returns_unshaped_array_and_seed_misses_columns:
  "loadFromStorage \<lparr>slot = Some (Json_text (JArr [JNum 1])), denied = False, full = False\<rparr>
     = [JNum 1]
   \<and> \<not> spec_Card_shaped (JNum 1)
   \<and> [JNum 1] \<noteq> DEFAULT_CARDS
   \<and> Inr (JStr ''in-progress'') \<notin> set (map (\<lambda>c. getp c ''column'') DEFAULT_CARDS)
   \<and> Inr (JStr ''blocked'') \<notin> set (map (\<lambda>c. getp c ''column'') DEFAULT_CARDS)"
  unfolding seed_columns by (simp add: loadFromStorage_cases DEFAULT_CARDS_def)

subsection \<open>Lookup, assignment and trimming\<close>

lemma getp_setp:
  "getp (setp (JObj ps) k v) k' = (if k' = k then Inr v else getp (JObj ps) k')"
  by (simp add: update_conv')

lemma find_card_Some:
  "find_card cardId cs = Inr (Some i) \<Longrightarrow>
     i < length cs \<and> getp (cs ! i) ''id'' = Inr (JStr cardId)
     \<and> (\<forall>j<i. getp (cs ! j) ''id'' \<noteq> Inr (JStr cardId))"
proof (induction cs arbitrary: i)
  case Nil
  then show ?case by simp
next
  case (Cons c cs)
  show ?case
  proof (cases "getp c ''id'' = Inr (JStr cardId)")
    case True
    with Cons.prems show ?thesis by simp
  next
    case False
    with Cons.prems obtain i' where i': "find_card cardId cs = Inr (Some i')" "i = Suc i'"
      by (auto split: sum.splits option.splits if_splits)
    from Cons.IH[OF i'(1)] False i'(2) show ?thesis
      by (auto simp: less_Suc_eq_0_disj)
  qed
qed

lemma find_card_None:
  "find_card cardId cs = Inr None \<Longrightarrow> \<forall>c\<in>set cs. getp c ''id'' \<noteq> Inr (JStr cardId)"
  by (induction cs) (auto split: sum.splits option.splits if_splits)

lemma getp_id_is_object:
  "getp c ''id'' = Inr (JStr cardId) \<Longrightarrow> \<exists>ps. c = JObj ps"
  by (cases c) auto

lemma find_card_object:
  "find_card cardId cs = Inr (Some i) \<Longrightarrow> \<exists>ps. cs ! i = JObj ps"
  using find_card_Some getp_id_is_object by blast

lemma trim_empty_iff: "trim t = [] \<longleftrightarrow> list_all is_space t"
proof
  assume "list_all is_space t"
  then have "dropWhile is_space t = []"
    by (simp add: list_all_iff dropWhile_eq_Nil_conv)
  then show "trim t = []" by (simp only: trim_def rev.simps dropWhile.simps)
next
  assume "trim t = []"
  then have all: "\<forall>x\<in>set (dropWhile is_space t). is_space x"
    by (simp add: trim_def dropWhile_eq_Nil_conv)
  have "dropWhile is_space t = []"
  proof (rule ccontr)
    assume ne: "dropWhile is_space t \<noteq> []"
    then have "\<not> is_space (hd (dropWhile is_space t))" by (rule hd_dropWhile)
    moreover from ne have "hd (dropWhile is_space t) \<in> set (dropWhile is_space t)" by simp
    ultimately show False using all by blast
  qed
  then show "list_all is_space t"
    by (simp add: list_all_iff dropWhile_eq_Nil_conv)
qed

subsection \<open>Submitting the form\<close>

lemma submit_rejected:
  assumes "trim (title_value f) = [] \<or> 2 < length (filter fst (tag_checkboxes f))"
  shows "handleAddCardSubmit now random36 f s = (None, s)"
  using assms unfolding handleAddCardSubmit_def Let_def by auto

lemma cards_submit_add:
  assumes "trim (title_value f) \<noteq> []" "length (filter fst (tag_checkboxes f)) \<le> 2"
    and "editingCardId s = None"
  shows "cards (snd (handleAddCardSubmit now random36 f s)) = cards s @ [new_card now random36 f]"
proof -
  have "\<not> 2 < length (filter fst (tag_checkboxes f))" using assms(2) by simp
  then show ?thesis
    using assms(1,3)
    unfolding handleAddCardSubmit_def Let_def new_card_def form_due_def form_tags_def
    by (simp split: option.split)
qed

lemma cards_init_empty: "cards (snd (init empty_storage page)) = DEFAULT_CARDS"
  by (simp add: cards_init empty_storage_def loadFromStorage_absent)

lemma editingCardId_renderBoard [simp]: "editingCardId (snd (renderBoard s)) = editingCardId s"
  by (simp add: renderBoard_def Let_def)

lemma cards_openEditModal [simp]: "cards (snd (openEditModal cardId s)) = cards s"
  by (simp add: openEditModal_def split: sum.splits option.splits)

lemma editingCardId_init: "editingCardId (snd (init ls page)) = None"
  by (simp add: init_def)

text \<open>
  C4. A submit whose title is empty or only white space, or with three or more tag
  checkboxes checked, returns before it touches anything: the whole state, and so the
  collection, is as before. The check stands before the edit and the add branch, so this
  holds in either mode of the modal.
\<close>

theorem rejected_submit_is_noop:
  assumes "list_all is_space (title_value f) \<or> 3 \<le> length (filter fst (tag_checkboxes f))"
  shows "handleAddCardSubmit now random36 f s = (None, s)
         \<and> cards (snd (handleAddCardSubmit now random36 f s)) = cards s"
proof -
  from assms have "trim (title_value f) = [] \<or> 2 < length (filter fst (tag_checkboxes f))"
    by (auto simp: trim_empty_iff)
  then show ?thesis by (simp add: submit_rejected)
qed

text \<open>
  A blank title in add mode, and three tags in edit mode for the seed card 6.
\<close>

theorem rejected_submit_is_noop_witness:
  "cards (snd (handleAddCardSubmit 1718470800000 ''0.8f3k2jx9c''
       (learn_rust_form\<lparr>title_value := ''   ''\<rparr>) (snd (init empty_storage four_columns_page))))
     = DEFAULT_CARDS
   \<and> cards (snd (handleAddCardSubmit 1718470800000 ''0.8f3k2jx9c''
       (learn_rust_form\<lparr>tag_checkboxes := [(True, ''Front-End''), (True, ''Back-End''), (True, ''DevOps'')]\<rparr>)
       (snd (openEditModal ''6'' (snd (init empty_storage four_columns_page))))))
     = DEFAULT_CARDS"
proof -
  have 1: "list_all is_space (title_value (learn_rust_form\<lparr>title_value := ''   ''\<rparr>))"
    by (simp add: is_space_def)
  have 2: "3 \<le> length (filter fst (tag_checkboxes
      (learn_rust_form\<lparr>tag_checkboxes := [(True, ''Front-End''), (True, ''Back-End''), (True, ''DevOps'')]\<rparr>)))"
    by simp
  show ?thesis
    using rejected_submit_is_noop[OF disjI1[OF 1]] rejected_submit_is_noop[OF disjI2[OF 2]]
    by (simp add: cards_init_empty)
qed

text \<open>
  What \<^verbatim>\<open>generateId\<close> returns begins with the digits of the clock and is never
  empty. The digits of a number determine it, and every clock value from \<open>36 ^ 7\<close>
  (26 June 1972) up to \<open>36 ^ 8\<close> (25 May 2059) has eight digits in base 36, so two
  ids built in that time are equal only when they were built in the same millisecond from
  the same random digits.
\<close>

lemma digits_nonempty: "digits b n \<noteq> []"
  by (subst digits.simps) simp

lemma distinct_alphabet: "distinct ''0123456789abcdefghijklmnopqrstuvwxyz''"
  by code_simp

lemma digit_char_inj:
  assumes "i < 36" "j < 36" "digit_char i = digit_char j"
  shows "i = j"
proof -
  have "length ''0123456789abcdefghijklmnopqrstuvwxyz'' = 36" by simp
  with assms distinct_alphabet show ?thesis
    unfolding digit_char_def by (simp only: nth_eq_iff_index_eq)
qed

lemma digits_small: "n < b \<Longrightarrow> digits b n = [digit_char (nat n)]"
  by (subst digits.simps) simp

lemma digits_big:
  "2 \<le> b \<Longrightarrow> b \<le> n \<Longrightarrow> digits b n = digits b (n div b) @ [digit_char (nat (n mod b))]"
  by (subst digits.simps) simp

lemma digits_inj:
  "2 \<le> b \<Longrightarrow> b \<le> 36 \<Longrightarrow> 0 \<le> m \<Longrightarrow> 0 \<le> n \<Longrightarrow> digits b m = digits b n \<Longrightarrow> m = n"
proof (induction b m arbitrary: n rule: digits.induct)
  case (1 b m)
  have b: "0 < b" using "1.prems"(1) by simp
  show ?case
  proof (cases "m < b")
    case True
    then have m: "digits b m = [digit_char (nat m)]" by (rule digits_small)
    show ?thesis
    proof (cases "n < b")
      case n: True
      then have "digits b n = [digit_char (nat n)]" by (rule digits_small)
      with "1.prems"(5) m have "digit_char (nat m) = digit_char (nat n)" by simp
      moreover have "nat m < 36" "nat n < 36" using True n "1.prems"(2) by simp_all
      ultimately have "nat m = nat n" by (simp only: digit_char_inj)
      then show ?thesis using "1.prems"(3,4) by simp
    next
      case False
      then have "digits b n = digits b (n div b) @ [digit_char (nat (n mod b))]"
        using "1.prems"(1) by (intro digits_big) simp_all
      with "1.prems"(5) m have "digits b (n div b) = []" by simp
      with digits_nonempty show ?thesis by blast
    qed
  next
    case False
    then have m: "digits b m = digits b (m div b) @ [digit_char (nat (m mod b))]"
      using "1.prems"(1) by (intro digits_big) simp_all
    show ?thesis
    proof (cases "n < b")
      case True
      then have "digits b n = [digit_char (nat n)]" by (rule digits_small)
      with "1.prems"(5) m have "digits b (m div b) = []" by simp
      with digits_nonempty show ?thesis by blast
    next
      case n: False
      then have "digits b n = digits b (n div b) @ [digit_char (nat (n mod b))]"
        using "1.prems"(1) by (intro digits_big) simp_all
      with "1.prems"(5) m have q: "digits b (m div b) = digits b (n div b)"
        and r: "digit_char (nat (m mod b)) = digit_char (nat (n mod b))" by simp_all
      have nn: "0 \<le> m div b" "0 \<le> n div b"
        using "1.prems"(3,4) b by (simp_all add: pos_imp_zdiv_nonneg_iff)
      have c: "\<not> (b < 2 \<or> m < b)" using False "1.prems"(1) by simp
      from "1.IH"[OF c "1.prems"(1,2) nn q] have dq: "m div b = n div b" .
      have "m mod b < b" "n mod b < b" using b by (rule pos_mod_bound)+
      then have "nat (m mod b) < 36" "nat (n mod b) < 36"
        using "1.prems"(2) by linarith+
      with r have "nat (m mod b) = nat (n mod b)" by (simp only: digit_char_inj)
      moreover have "0 \<le> m mod b" "0 \<le> n mod b" using b by simp_all
      ultimately have dr: "m mod b = n mod b" by simp
      have "m = b * (m div b) + m mod b" by simp
      also have "\<dots> = b * (n div b) + n mod b" by (simp only: dq dr)
      also have "\<dots> = n" by simp
      finally show ?thesis .
    qed
  qed
qed

lemma length_digits:
  "2 \<le> b \<Longrightarrow> b ^ k \<le> n \<Longrightarrow> n < b ^ Suc k \<Longrightarrow> length (digits b n) = Suc k"
proof (induction k arbitrary: n)
  case 0
  then have "n < b" by simp
  then show ?case by (simp only: digits_small) simp
next
  case (Suc k)
  have b: "0 < b" using Suc.prems(1) by simp
  have "b ^ 1 \<le> b ^ Suc k" using Suc.prems(1) by (intro power_increasing) simp_all
  with Suc.prems(2) have nb: "b \<le> n" by simp
  have lo: "b ^ k \<le> n div b"
  proof -
    have "b ^ k * b \<le> n" using Suc.prems(2) by (simp add: mult.commute)
    then have "b ^ k * b div b \<le> n div b" using b by (intro zdiv_mono1) simp_all
    then show ?thesis using b by simp
  qed
  have hi: "n div b < b ^ Suc k"
  proof (rule ccontr)
    assume "\<not> n div b < b ^ Suc k"
    then have "b ^ Suc k \<le> n div b" by simp
    then have "b ^ Suc k * b \<le> n div b * b" using b by (intro mult_right_mono) simp_all
    also have "\<dots> \<le> n"
    proof -
      have "0 \<le> n mod b" using b by (rule pos_mod_sign)
      moreover have "n div b * b + n mod b = n" by simp
      ultimately show ?thesis by linarith
    qed
    finally have "b ^ Suc (Suc k) \<le> n" by (simp add: mult.commute)
    with Suc.prems(3) show False by simp
  qed
  have "digits b n = digits b (n div b) @ [digit_char (nat (n mod b))]"
    using Suc.prems(1) nb by (rule digits_big)
  with Suc.IH[OF Suc.prems(1) lo hi] show ?case by simp
qed

lemma generateId_inj:
  assumes "36 ^ 7 \<le> now" "now < 36 ^ 8" "36 ^ 7 \<le> now'" "now' < 36 ^ 8"
    and "generateId now r = generateId now' r'"
  shows "now = now' \<and> drop 2 r = drop 2 r'"
proof -
  have pos: "0 \<le> now" "0 \<le> now'" using assms(1,3) by simp_all
  then have s: "int_toString 36 now = digits 36 now" "int_toString 36 now' = digits 36 now'"
    by (simp_all add: int_toString_def del: digits.simps)
  have l: "length (digits 36 now) = 8" "length (digits 36 now') = 8"
    using length_digits[of 36 7 now] length_digits[of 36 7 now'] assms(1-4) by simp_all
  from assms(5) have eq: "digits 36 now @ drop 2 r = digits 36 now' @ drop 2 r'"
    by (simp only: generateId_def s)
  have len: "length (digits 36 now) = length (digits 36 now')" by (simp only: l)
  have "digits 36 now = digits 36 now' \<and> drop 2 r = drop 2 r'"
    by (rule append_eq_append_conv[OF disjI1[OF len], THEN iffD1, OF eq])
  with digits_inj[of 36 now now'] pos show ?thesis by simp
qed

lemma generateId_nonempty: "generateId now r \<noteq> []"
  using digits_nonempty by (simp add: generateId_def int_toString_def del: digits.simps)

lemma generateId_prefix:
  "take (length (int_toString 36 now)) (generateId now r) = int_toString 36 now"
  by (simp add: generateId_def)

lemma new_card_learn_rust:
  "new_card 1718470800000 ''0.8f3k2jx9c'' learn_rust_form =
     JObj [(''id'', JStr ''lxgd57k08f3k2jx9c''), (''title'', JStr ''Learn Rust''),
           (''description'', JStr []), (''tags'', JArr [JStr ''Back-End'']),
           (''column'', JStr ''to-learn''), (''dueDate'', JUndefined)]"
  by code_simp

lemma clock_learn_rust: "int_toString 36 1718470800000 = ''lxgd57k0''"
  by code_simp

lemma seed_ids_without_clock:
  "\<forall>c\<in>set DEFAULT_CARDS. \<forall>str. getp c ''id'' = Inr (JStr str) \<longrightarrow>
      take (length (int_toString 36 1718470800000)) str \<noteq> int_toString 36 1718470800000"
  unfolding clock_learn_rust by (simp add: DEFAULT_CARDS_def seed_card_def)

text \<open>
  C3, as amended. In add mode, a submit with a non-empty trimmed title and at most two
  checked tags makes the collection one longer, leaves the old cards as a prefix and
  appends the new card last, in the column \<^verbatim>\<open>to-learn\<close>. The id of the new card
  is the string \<^verbatim>\<open>Date.now().toString(36)\<close> followed by
  \<^verbatim>\<open>Math.random().toString(36)\<close> without its first two characters, and is not
  empty. It differs from the id of every card in the collection whose id is not a string
  that begins with these digits of the clock, and from the id of every card whose id
  \<^verbatim>\<open>generateId\<close> built in another millisecond, or in the same millisecond from
  other random digits (both clock values having eight digits in base 36). Nothing compares
  the new id with the ids in use.
\<close>

theorem add_appends_card_with_generated_id:
  assumes "trim (title_value f) \<noteq> []"
    and "length (filter fst (tag_checkboxes f)) \<le> 2"
    and "editingCardId s = None"
  shows "length (cards (snd (handleAddCardSubmit now random36 f s))) = length (cards s) + 1
    \<and> butlast (cards (snd (handleAddCardSubmit now random36 f s))) = cards s
    \<and> last (cards (snd (handleAddCardSubmit now random36 f s))) = new_card now random36 f
    \<and> getp (last (cards (snd (handleAddCardSubmit now random36 f s)))) ''column''
        = Inr (JStr ''to-learn'')
    \<and> getp (last (cards (snd (handleAddCardSubmit now random36 f s)))) ''id''
        = Inr (JStr (int_toString 36 now @ drop 2 random36))
    \<and> int_toString 36 now @ drop 2 random36 \<noteq> []
    \<and> (\<forall>c\<in>set (cards s).
          (\<forall>str. getp c ''id'' = Inr (JStr str) \<longrightarrow>
                 take (length (int_toString 36 now)) str \<noteq> int_toString 36 now) \<longrightarrow>
          getp c ''id'' \<noteq> getp (last (cards (snd (handleAddCardSubmit now random36 f s)))) ''id'')
    \<and> (\<forall>c\<in>set (cards s). \<forall>now' random36'.
          36 ^ 7 \<le> now \<and> now < 36 ^ 8 \<and> 36 ^ 7 \<le> now' \<and> now' < 36 ^ 8
          \<and> getp c ''id'' = Inr (JStr (generateId now' random36'))
          \<and> (now' \<noteq> now \<or> drop 2 random36' \<noteq> drop 2 random36) \<longrightarrow>
          getp c ''id'' \<noteq> getp (last (cards (snd (handleAddCardSubmit now random36 f s)))) ''id'')"
proof -
  let ?new = "last (cards (snd (handleAddCardSubmit now random36 f s)))"
  note app = cards_submit_add[OF assms, of now random36]
  have l: "?new = new_card now random36 f" by (simp only: app last_snoc)
  have i: "getp ?new ''id'' = Inr (JStr (generateId now random36))"
    by (simp only: l) (simp add: new_card_def)
  have c: "getp ?new ''column'' = Inr (JStr ''to-learn'')"
    by (simp only: l) (simp add: new_card_def)
  have g: "generateId now random36 = int_toString 36 now @ drop 2 random36"
    by (simp only: generateId_def)
  have a: "getp c ''id'' \<noteq> getp ?new ''id''"
    if "\<forall>str. getp c ''id'' = Inr (JStr str) \<longrightarrow>
           take (length (int_toString 36 now)) str \<noteq> int_toString 36 now" for c
  proof
    assume "getp c ''id'' = getp ?new ''id''"
    then have "getp c ''id'' = Inr (JStr (generateId now random36))" by (simp only: i)
    with that have "take (length (int_toString 36 now)) (generateId now random36)
        \<noteq> int_toString 36 now" by blast
    then show False by (simp only: generateId_prefix) simp
  qed
  have b: "getp c ''id'' \<noteq> getp ?new ''id''"
    if "36 ^ 7 \<le> now \<and> now < 36 ^ 8 \<and> 36 ^ 7 \<le> now' \<and> now' < 36 ^ 8
          \<and> getp c ''id'' = Inr (JStr (generateId now' random36'))
          \<and> (now' \<noteq> now \<or> drop 2 random36' \<noteq> drop 2 random36)" for c now' random36'
  proof
    assume "getp c ''id'' = getp ?new ''id''"
    with that have "generateId now' random36' = generateId now random36" by (simp add: i)
    from generateId_inj[OF _ _ _ _ this] that show False by blast
  qed
  have ne: "int_toString 36 now @ drop 2 random36 \<noteq> []"
    using generateId_nonempty[of now random36] unfolding g .
  have 1: "length (cards (snd (handleAddCardSubmit now random36 f s))) = length (cards s) + 1"
    by (simp add: app)
  have 2: "butlast (cards (snd (handleAddCardSubmit now random36 f s))) = cards s"
    by (simp add: app)
  have 5: "getp ?new ''id'' = Inr (JStr (int_toString 36 now @ drop 2 random36))"
    by (simp only: i g)
  have 7: "\<forall>c\<in>set (cards s).
          (\<forall>str. getp c ''id'' = Inr (JStr str) \<longrightarrow>
                 take (length (int_toString 36 now)) str \<noteq> int_toString 36 now) \<longrightarrow>
          getp c ''id'' \<noteq> getp ?new ''id''"
    using a by blast
  have 8: "\<forall>c\<in>set (cards s). \<forall>now' random36'.
          36 ^ 7 \<le> now \<and> now < 36 ^ 8 \<and> 36 ^ 7 \<le> now' \<and> now' < 36 ^ 8
          \<and> getp c ''id'' = Inr (JStr (generateId now' random36'))
          \<and> (now' \<noteq> now \<or> drop 2 random36' \<noteq> drop 2 random36) \<longrightarrow>
          getp c ''id'' \<noteq> getp ?new ''id''"
    using b by blast
  show ?thesis by (intro conjI; fact 1 2 l c 5 ne 7 8)
qed

text \<open>
  The specification's example: "Learn Rust" added to the seed data gets an id that none
  of the nine seed cards has; added to a stored card whose id was generated one
  millisecond later from the same random digits, it gets another id than that card.
\<close>

theorem add_appends_card_with_generated_id_witness:
  "length (cards (snd (handleAddCardSubmit 1718470800000 ''0.8f3k2jx9c'' learn_rust_form
       (snd (init empty_storage four_columns_page))))) = 10
   \<and> butlast (cards (snd (handleAddCardSubmit 1718470800000 ''0.8f3k2jx9c'' learn_rust_form
       (snd (init empty_storage four_columns_page))))) = DEFAULT_CARDS
   \<and> last (cards (snd (handleAddCardSubmit 1718470800000 ''0.8f3k2jx9c'' learn_rust_form
       (snd (init empty_storage four_columns_page))))) =
     JObj [(''id'', JStr ''lxgd57k08f3k2jx9c''), (''title'', JStr ''Learn Rust''),
           (''description'', JStr []), (''tags'', JArr [JStr ''Back-End'']),
           (''column'', JStr ''to-learn''), (''dueDate'', JUndefined)]
   \<and> list_all (\<lambda>c. getp c ''id'' \<noteq> Inr (JStr ''lxgd57k08f3k2jx9c'')) DEFAULT_CARDS
   \<and> getp (last (cards (snd (handleAddCardSubmit 1718470800000 ''0.8f3k2jx9c'' learn_rust_form
       (snd (init \<lparr>slot = Some (Json_text (JArr [
              JObj [(''id'', JStr ''lxgd57k18f3k2jx9c''), (''title'', JStr ''Learn Go''),
                    (''description'', JStr []), (''tags'', JArr []),
                    (''column'', JStr ''blocked'')]])),
            denied = False, full = False\<rparr> four_columns_page)))))) ''id''
     \<noteq> Inr (JStr ''lxgd57k18f3k2jx9c'')"
proof -
  let ?ini = "snd (init empty_storage four_columns_page)"
  let ?go = "JObj [(''id'', JStr ''lxgd57k18f3k2jx9c''), (''title'', JStr ''Learn Go''),
                    (''description'', JStr []), (''tags'', JArr []),
                    (''column'', JStr ''blocked'')]"
  let ?st = "snd (init \<lparr>slot = Some (Json_text (JArr [?go])),
            denied = False, full = False\<rparr> four_columns_page)"
  have 1: "trim (title_value learn_rust_form) \<noteq> []" by code_simp
  have 2: "length (filter fst (tag_checkboxes learn_rust_form)) \<le> 2" by code_simp
  have 3: "editingCardId ?ini = None" by (rule editingCardId_init)
  have 4: "editingCardId ?st = None" by (rule editingCardId_init)
  note T = add_appends_card_with_generated_id[OF 1 2 3, of 1718470800000 "''0.8f3k2jx9c''"]
  note U = add_appends_card_with_generated_id[OF 1 2 4, of 1718470800000 "''0.8f3k2jx9c''"]
  note t1 = T[THEN conjunct1]
  note t2 = T[THEN conjunct2, THEN conjunct1]
  note t3 = T[THEN conjunct2, THEN conjunct2, THEN conjunct1]
  note t5 = T[THEN conjunct2, THEN conjunct2, THEN conjunct2, THEN conjunct2, THEN conjunct1]
  note t7 = T[THEN conjunct2, THEN conjunct2, THEN conjunct2, THEN conjunct2, THEN conjunct2,
      THEN conjunct2, THEN conjunct1]
  note u8 = U[THEN conjunct2, THEN conjunct2, THEN conjunct2, THEN conjunct2, THEN conjunct2,
      THEN conjunct2, THEN conjunct2]
  have a: "length (cards (snd (handleAddCardSubmit 1718470800000 ''0.8f3k2jx9c'' learn_rust_form
       ?ini))) = 10"
    using t1 by (simp only: cards_init_empty length_DEFAULT_CARDS)
  have b: "butlast (cards (snd (handleAddCardSubmit 1718470800000 ''0.8f3k2jx9c'' learn_rust_form
       ?ini))) = DEFAULT_CARDS"
    using t2 by (simp only: cards_init_empty)
  have c: "last (cards (snd (handleAddCardSubmit 1718470800000 ''0.8f3k2jx9c'' learn_rust_form
       ?ini))) =
     JObj [(''id'', JStr ''lxgd57k08f3k2jx9c''), (''title'', JStr ''Learn Rust''),
           (''description'', JStr []), (''tags'', JArr [JStr ''Back-End'']),
           (''column'', JStr ''to-learn''), (''dueDate'', JUndefined)]"
    using t3 by (simp only: new_card_learn_rust)
  have newid: "int_toString 36 1718470800000 @ drop 2 ''0.8f3k2jx9c'' = ''lxgd57k08f3k2jx9c''"
    unfolding clock_learn_rust by simp
  have d: "list_all (\<lambda>c. getp c ''id'' \<noteq> Inr (JStr ''lxgd57k08f3k2jx9c'')) DEFAULT_CARDS"
    unfolding list_all_iff
  proof
    fix x assume x: "x \<in> set DEFAULT_CARDS"
    then have x': "x \<in> set (cards ?ini)" by (simp only: cards_init_empty)
    from seed_ids_without_clock x
    have h: "\<forall>str. getp x ''id'' = Inr (JStr str) \<longrightarrow>
      take (length (int_toString 36 1718470800000)) str \<noteq> int_toString 36 1718470800000"
      by (rule bspec)
    from t7[THEN bspec, OF x', THEN mp, OF h]
    show "getp x ''id'' \<noteq> Inr (JStr ''lxgd57k08f3k2jx9c'')"
      unfolding t5 newid .
  qed
  have cs: "cards ?st = [?go]" by (simp add: cards_init loadFromStorage_cases)
  have mem: "?go \<in> set (cards ?st)" by (simp only: cs) simp
  have later: "generateId 1718470800001 ''0.8f3k2jx9c'' = ''lxgd57k18f3k2jx9c''" by code_simp
  have hyp: "(36::int) ^ 7 \<le> 1718470800000 \<and> (1718470800000::int) < 36 ^ 8
      \<and> (36::int) ^ 7 \<le> 1718470800001 \<and> (1718470800001::int) < 36 ^ 8
      \<and> getp ?go ''id'' = Inr (JStr (generateId 1718470800001 ''0.8f3k2jx9c''))
      \<and> ((1718470800001::int) \<noteq> 1718470800000 \<or> drop 2 ''0.8f3k2jx9c'' \<noteq> drop 2 ''0.8f3k2jx9c'')"
    unfolding later by simp
  note u = u8[THEN bspec, OF mem, THEN spec, THEN spec, THEN mp, OF hyp]
  have goid: "getp ?go ''id'' = Inr (JStr ''lxgd57k18f3k2jx9c'')" by simp
  have e: "getp (last (cards (snd (handleAddCardSubmit 1718470800000 ''0.8f3k2jx9c'' learn_rust_form
       ?st)))) ''id'' \<noteq> Inr (JStr ''lxgd57k18f3k2jx9c'')"
    using u unfolding goid by (rule not_sym)
  from a b c d e show ?thesis by (intro conjI)
qed

text \<open>
  C3 as stated fails where the generated string is in use: the stored card was given the
  id \<^verbatim>\<open>lxgd57k08f3k2jx9c\<close>, and the clock and the random number of this submit
  produce the same string, so the new card shares its id with an existing card.
\<close>

theorem generated_id_can_repeat:
  "cards (snd (handleAddCardSubmit 1718470800000 ''0.8f3k2jx9c'' learn_rust_form
     (snd (init \<lparr>slot = Some (Json_text (JArr [
              JObj [(''id'', JStr ''lxgd57k08f3k2jx9c''), (''title'', JStr ''Learn Go''),
                    (''description'', JStr []), (''tags'', JArr []),
                    (''column'', JStr ''blocked'')]])),
            denied = False, full = False\<rparr> four_columns_page)))) =
     [JObj [(''id'', JStr ''lxgd57k08f3k2jx9c''), (''title'', JStr ''Learn Go''),
            (''description'', JStr []), (''tags'', JArr []), (''column'', JStr ''blocked'')],
      JObj [(''id'', JStr ''lxgd57k08f3k2jx9c''), (''title'', JStr ''Learn Rust''),
            (''description'', JStr []), (''tags'', JArr [JStr ''Back-End'']),
            (''column'', JStr ''to-learn''), (''dueDate'', JUndefined)]]"
proof -
  have 1: "trim (title_value learn_rust_form) \<noteq> []" by code_simp
  have 2: "length (filter fst (tag_checkboxes learn_rust_form)) \<le> 2" by code_simp
  show ?thesis
    by (simp only: cards_submit_add[OF 1 2 editingCardId_init] cards_init new_card_learn_rust)
       (simp add: loadFromStorage_cases)
qed

subsection \<open>Dropping a card on a column\<close>

lemma COLUMNS_nonempty: "col \<in> set COLUMNS \<Longrightarrow> col \<noteq> []"
  by (auto simp: COLUMNS_def)

lemma cards_handleDrop_found:
  assumes "col \<in> set COLUMNS" "cardId \<noteq> []" "find_card cardId (cards s) = Inr (Some i)"
  shows "cards (snd (handleDrop (Some col) cardId s)) =
           (cards s)[i := setp (cards s ! i) ''column'' (JStr col)]"
  using assms COLUMNS_nonempty[OF assms(1)] by (simp add: handleDrop_def)

lemma handleDrop_noop:
  assumes "columnId = None \<or> (\<exists>col. columnId = Some col \<and> col \<notin> set COLUMNS)
           \<or> cardId = [] \<or> find_card cardId (cards s) = Inr None"
  shows "handleDrop columnId cardId s = (None, s)"
  using assms by (auto simp: handleDrop_def split: option.splits)

text \<open>
  In a collection without \<^verbatim>\<open>null\<close> elements, \<^verbatim>\<open>find\<close> returns a card exactly
  when some card has the id.
\<close>

lemma find_card_present:
  assumes "\<forall>c\<in>set cs. c \<noteq> JNull \<and> c \<noteq> JUndefined"
    and "\<exists>c\<in>set cs. getp c ''id'' = Inr (JStr cardId)"
  shows "\<exists>i. find_card cardId cs = Inr (Some i)"
  using assms
proof (induction cs)
  case Nil
  then show ?case by simp
next
  case (Cons c cs)
  then obtain v where v: "getp c ''id'' = Inr v" by (cases c) auto
  show ?case
  proof (cases "v = JStr cardId")
    case True
    with v show ?thesis by simp
  next
    case False
    with Cons v obtain i where "find_card cardId cs = Inr (Some i)" by auto
    with v False show ?thesis by simp
  qed
qed

lemma find_card_absent:
  assumes "\<forall>c\<in>set cs. c \<noteq> JNull \<and> c \<noteq> JUndefined"
    and "\<forall>c\<in>set cs. getp c ''id'' \<noteq> Inr (JStr cardId)"
  shows "find_card cardId cs = Inr None"
  using assms
proof (induction cs)
  case Nil
  then show ?case by simp
next
  case (Cons c cs)
  then obtain v where v: "getp c ''id'' = Inr v" by (cases c) auto
  with Cons show ?case by simp
qed

text \<open>
  \<^verbatim>\<open>find\<close> returns the first card with the id when no \<^verbatim>\<open>null\<close> element
  stands before it, and throws when it meets a \<^verbatim>\<open>null\<close> element before any card
  with the id.
\<close>

lemma find_card_first:
  "i < length cs \<Longrightarrow> getp (cs ! i) ''id'' = Inr (JStr cardId) \<Longrightarrow>
   \<forall>j<i. cs ! j \<noteq> JNull \<and> cs ! j \<noteq> JUndefined \<and> getp (cs ! j) ''id'' \<noteq> Inr (JStr cardId) \<Longrightarrow>
   find_card cardId cs = Inr (Some i)"
proof (induction cs arbitrary: i)
  case Nil
  then show ?case by simp
next
  case (Cons c cs)
  show ?case
  proof (cases i)
    case 0
    with Cons.prems(2) show ?thesis by simp
  next
    case (Suc i')
    from Cons.prems(3) Suc have c: "c \<noteq> JNull" "c \<noteq> JUndefined"
      "getp c ''id'' \<noteq> Inr (JStr cardId)" by auto
    then obtain v where v: "getp c ''id'' = Inr v" "v \<noteq> JStr cardId" by (cases c) auto
    have "\<forall>j<i'. cs ! j \<noteq> JNull \<and> cs ! j \<noteq> JUndefined
        \<and> getp (cs ! j) ''id'' \<noteq> Inr (JStr cardId)"
    proof (intro allI impI)
      fix j assume "j < i'"
      then have "Suc j < i" using Suc by simp
      with Cons.prems(3) show "cs ! j \<noteq> JNull \<and> cs ! j \<noteq> JUndefined
        \<and> getp (cs ! j) ''id'' \<noteq> Inr (JStr cardId)" by fastforce
    qed
    with Cons.IH[of i'] Cons.prems(1,2) Suc have "find_card cardId cs = Inr (Some i')" by simp
    with v Suc show ?thesis by simp
  qed
qed

lemma find_card_throws:
  "i < length cs \<Longrightarrow> cs ! i = JNull \<or> cs ! i = JUndefined \<Longrightarrow>
   \<forall>j<i. getp (cs ! j) ''id'' \<noteq> Inr (JStr cardId) \<Longrightarrow>
   find_card cardId cs = Inl TypeError"
proof (induction cs arbitrary: i)
  case Nil
  then show ?case by simp
next
  case (Cons c cs)
  show ?case
  proof (cases i)
    case 0
    with Cons.prems(2) show ?thesis by auto
  next
    case (Suc i')
    from Cons.prems(3) Suc have c: "getp c ''id'' \<noteq> Inr (JStr cardId)" by auto
    have "\<forall>j<i'. getp (cs ! j) ''id'' \<noteq> Inr (JStr cardId)"
    proof (intro allI impI)
      fix j assume "j < i'"
      then have "Suc j < i" using Suc by simp
      with Cons.prems(3) show "getp (cs ! j) ''id'' \<noteq> Inr (JStr cardId)" by fastforce
    qed
    with Cons.IH[of i'] Cons.prems(1,2) Suc have r: "find_card cardId cs = Inl TypeError" by simp
    show ?thesis
    proof (cases "getp c ''id''")
      case (Inl e)
      then have "e = TypeError" by (cases c) auto
      with Inl show ?thesis by simp
    next
      case (Inr v)
      with c r show ?thesis by simp
    qed
  qed
qed

text \<open>
  C5, as amended. \<^verbatim>\<open>moveCard(id, targetColumn)\<close> is a drop on a column with the
  card's id as drag data (\<^verbatim>\<open>handleDrop\<close>). When the target is one of the four
  columns, the id is not the empty string, the card at index \<open>i\<close> is the first card with
  that id and no element before it is \<^verbatim>\<open>null\<close>, the collection afterwards is the
  old one with the column of that card set to the target: the length, every other property
  of that card and every other card are as before. With no target column, a target that is
  not one of the four, or the empty string as id, nothing happens. With an id that no card
  has, the state is unchanged (and nothing is thrown when no element is \<^verbatim>\<open>null\<close>).
  When a \<^verbatim>\<open>null\<close> element stands before every card with the id, the state is
  unchanged too, and for a valid target and a non-empty id the lookup throws a TypeError.
\<close>

theorem drop_sets_only_the_column:
  "(\<forall>col i. columnId = Some col \<and> col \<in> set COLUMNS \<and> cardId \<noteq> []
        \<and> i < length (cards s) \<and> getp (cards s ! i) ''id'' = Inr (JStr cardId)
        \<and> (\<forall>j<i. cards s ! j \<noteq> JNull \<and> cards s ! j \<noteq> JUndefined
                 \<and> getp (cards s ! j) ''id'' \<noteq> Inr (JStr cardId)) \<longrightarrow>
      cards (snd (handleDrop columnId cardId s)) =
        (cards s)[i := setp (cards s ! i) ''column'' (JStr col)]
      \<and> length (cards (snd (handleDrop columnId cardId s))) = length (cards s)
      \<and> getp (cards (snd (handleDrop columnId cardId s)) ! i) ''column'' = Inr (JStr col)
      \<and> (\<forall>k. k \<noteq> ''column'' \<longrightarrow>
            getp (cards (snd (handleDrop columnId cardId s)) ! i) k = getp (cards s ! i) k)
      \<and> (\<forall>j. j \<noteq> i \<longrightarrow> cards (snd (handleDrop columnId cardId s)) ! j = cards s ! j))
   \<and> (columnId = None \<or> (\<exists>col. columnId = Some col \<and> col \<notin> set COLUMNS) \<or> cardId = [] \<longrightarrow>
      handleDrop columnId cardId s = (None, s))
   \<and> ((\<forall>c\<in>set (cards s). getp c ''id'' \<noteq> Inr (JStr cardId)) \<longrightarrow>
      snd (handleDrop columnId cardId s) = s
      \<and> ((\<forall>c\<in>set (cards s). c \<noteq> JNull \<and> c \<noteq> JUndefined) \<longrightarrow>
           fst (handleDrop columnId cardId s) = None))
   \<and> ((\<exists>i<length (cards s). (cards s ! i = JNull \<or> cards s ! i = JUndefined)
          \<and> (\<forall>j<i. getp (cards s ! j) ''id'' \<noteq> Inr (JStr cardId))) \<longrightarrow>
      handleDrop columnId cardId s =
        (if (\<exists>col. columnId = Some col \<and> col \<in> set COLUMNS) \<and> cardId \<noteq> []
         then Some TypeError else None, s))"
proof (intro conjI allI impI)
  fix col i
  assume a: "columnId = Some col \<and> col \<in> set COLUMNS \<and> cardId \<noteq> []
        \<and> i < length (cards s) \<and> getp (cards s ! i) ''id'' = Inr (JStr cardId)
        \<and> (\<forall>j<i. cards s ! j \<noteq> JNull \<and> cards s ! j \<noteq> JUndefined
                 \<and> getp (cards s ! j) ''id'' \<noteq> Inr (JStr cardId))"
  then have i: "i < length (cards s)" and id: "getp (cards s ! i) ''id'' = Inr (JStr cardId)"
    and before: "\<forall>j<i. cards s ! j \<noteq> JNull \<and> cards s ! j \<noteq> JUndefined
                 \<and> getp (cards s ! j) ''id'' \<noteq> Inr (JStr cardId)" by simp_all
  have found: "find_card cardId (cards s) = Inr (Some i)"
    using i id before by (rule find_card_first)
  from getp_id_is_object[OF id] obtain ps where ps: "cards s ! i = JObj ps" by blast
  have eq: "cards (snd (handleDrop columnId cardId s)) =
        (cards s)[i := setp (cards s ! i) ''column'' (JStr col)]"
    using a found cards_handleDrop_found by simp
  show "cards (snd (handleDrop columnId cardId s)) =
        (cards s)[i := setp (cards s ! i) ''column'' (JStr col)]" by (rule eq)
  show "length (cards (snd (handleDrop columnId cardId s))) = length (cards s)"
    by (simp add: eq)
  show "getp (cards (snd (handleDrop columnId cardId s)) ! i) ''column'' = Inr (JStr col)"
    using i by (simp add: eq ps getp_setp del: setp.simps getp.simps)
  show "getp (cards (snd (handleDrop columnId cardId s)) ! i) k = getp (cards s ! i) k"
    if "k \<noteq> ''column''" for k
    using i that by (simp add: eq ps getp_setp del: setp.simps getp.simps)
  show "cards (snd (handleDrop columnId cardId s)) ! j = cards s ! j" if "j \<noteq> i" for j
    using that by (simp add: eq)
next
  assume "columnId = None \<or> (\<exists>col. columnId = Some col \<and> col \<notin> set COLUMNS) \<or> cardId = []"
  then show "handleDrop columnId cardId s = (None, s)"
    by (auto simp: handleDrop_def split: option.splits)
next
  assume absent: "\<forall>c\<in>set (cards s). getp c ''id'' \<noteq> Inr (JStr cardId)"
  have nf: "find_card cardId (cards s) \<noteq> Inr (Some i)" for i
  proof
    assume "find_card cardId (cards s) = Inr (Some i)"
    from find_card_Some[OF this] absent show False by (auto dest: nth_mem)
  qed
  then show "snd (handleDrop columnId cardId s) = s"
    by (auto simp: handleDrop_def split: option.split sum.split)
  show "fst (handleDrop columnId cardId s) = None"
    if "\<forall>c\<in>set (cards s). c \<noteq> JNull \<and> c \<noteq> JUndefined"
  proof -
    from that absent have "find_card cardId (cards s) = Inr None" by (rule find_card_absent)
    then show ?thesis by (simp add: handleDrop_noop)
  qed
next
  assume "\<exists>i<length (cards s). (cards s ! i = JNull \<or> cards s ! i = JUndefined)
          \<and> (\<forall>j<i. getp (cards s ! j) ''id'' \<noteq> Inr (JStr cardId))"
  then obtain i where "i < length (cards s)" "cards s ! i = JNull \<or> cards s ! i = JUndefined"
    "\<forall>j<i. getp (cards s ! j) ''id'' \<noteq> Inr (JStr cardId)" by blast
  then have t: "find_card cardId (cards s) = Inl TypeError" by (rule find_card_throws)
  then show "handleDrop columnId cardId s =
        (if (\<exists>col. columnId = Some col \<and> col \<in> set COLUMNS) \<and> cardId \<noteq> []
         then Some TypeError else None, s)"
    by (auto simp: handleDrop_def COLUMNS_nonempty split: option.split)
qed

text \<open>
  The seed card 7 dropped on \<^verbatim>\<open>blocked\<close> and on a column that does not exist; an id
  that no seed card has; and the seed card 7 behind a \<^verbatim>\<open>null\<close> element.
\<close>

theorem drop_sets_only_the_column_witness:
  "getp (cards (snd (handleDrop (Some ''blocked'') ''7''
       (snd (init empty_storage four_columns_page)))) ! 6) ''column'' = Inr (JStr ''blocked'')
   \<and> getp (cards (snd (handleDrop (Some ''blocked'') ''7''
       (snd (init empty_storage four_columns_page)))) ! 6) ''title''
     = Inr (JStr ''Feature - due dates'')
   \<and> cards (snd (handleDrop (Some ''blocked'') ''7''
       (snd (init empty_storage four_columns_page)))) ! 5 = DEFAULT_CARDS ! 5
   \<and> handleDrop (Some ''done'') ''7'' (snd (init empty_storage four_columns_page))
     = (None, snd (init empty_storage four_columns_page))
   \<and> handleDrop (Some ''blocked'') ''77'' (snd (init empty_storage four_columns_page))
     = (None, snd (init empty_storage four_columns_page))
   \<and> handleDrop (Some ''blocked'') ''7''
        \<lparr>cards = [DEFAULT_CARDS ! 5, JNull, DEFAULT_CARDS ! 6], editingCardId = None,
         localStorage = empty_storage, board = four_columns_page\<rparr>
     = (Some TypeError,
        \<lparr>cards = [DEFAULT_CARDS ! 5, JNull, DEFAULT_CARDS ! 6], editingCardId = None,
         localStorage = empty_storage, board = four_columns_page\<rparr>)"
proof -
  let ?s = "snd (init empty_storage four_columns_page)"
  let ?n = "\<lparr>cards = [DEFAULT_CARDS ! 5, JNull, DEFAULT_CARDS ! 6], editingCardId = None,
         localStorage = empty_storage, board = four_columns_page\<rparr>"
  have col: "''blocked'' \<in> set COLUMNS" by (simp add: COLUMNS_def)
  have nocol: "''done'' \<notin> set COLUMNS" by (simp add: COLUMNS_def)
  have title: "getp (DEFAULT_CARDS ! 6) ''title'' = Inr (JStr ''Feature - due dates'')"
    by code_simp
  have id7: "getp (DEFAULT_CARDS ! 6) ''id'' = Inr (JStr ''7'')" by code_simp
  have "list_all (\<lambda>c. c \<noteq> JNull \<and> c \<noteq> JUndefined \<and> getp c ''id'' \<noteq> Inr (JStr ''7''))
          (take 6 DEFAULT_CARDS)" by code_simp
  then have before: "\<forall>j<6. DEFAULT_CARDS ! j \<noteq> JNull \<and> DEFAULT_CARDS ! j \<noteq> JUndefined
          \<and> getp (DEFAULT_CARDS ! j) ''id'' \<noteq> Inr (JStr ''7'')"
    by (simp add: list_all_length length_DEFAULT_CARDS)
  have move: "Some ''blocked'' = Some ''blocked'' \<and> ''blocked'' \<in> set COLUMNS \<and> ''7'' \<noteq> []
       \<and> 6 < length (cards ?s) \<and> getp (cards ?s ! 6) ''id'' = Inr (JStr ''7'')
       \<and> (\<forall>j<6. cards ?s ! j \<noteq> JNull \<and> cards ?s ! j \<noteq> JUndefined
                \<and> getp (cards ?s ! j) ''id'' \<noteq> Inr (JStr ''7''))"
    using col id7 before by (simp only: cards_init_empty length_DEFAULT_CARDS) simp
  note T = drop_sets_only_the_column[of "Some ''blocked''" "''7''" ?s,
      THEN conjunct1, THEN spec, THEN spec, THEN mp, OF move]
  note 1 = T[THEN conjunct2, THEN conjunct2, THEN conjunct1]
  have ne: "''title'' \<noteq> ''column''" by simp
  note 2 = T[THEN conjunct2, THEN conjunct2, THEN conjunct2, THEN conjunct1, THEN spec, THEN mp, OF ne]
  have ne': "(5::nat) \<noteq> 6" by simp
  note 3 = T[THEN conjunct2, THEN conjunct2, THEN conjunct2, THEN conjunct2, THEN spec, THEN mp, OF ne']
  have "Some ''done'' = None \<or> (\<exists>col. Some ''done'' = Some col \<and> col \<notin> set COLUMNS)
        \<or> ''7'' = []"
    using nocol by simp
  note 4 = drop_sets_only_the_column[of "Some ''done''" "''7''" ?s,
      THEN conjunct2, THEN conjunct1, THEN mp, OF this]
  have absent: "\<forall>c\<in>set (cards ?s). getp c ''id'' \<noteq> Inr (JStr ''77'')"
    unfolding cards_init_empty by (simp add: DEFAULT_CARDS_def seed_card_def)
  have objs: "\<forall>c\<in>set (cards ?s). c \<noteq> JNull \<and> c \<noteq> JUndefined"
    unfolding cards_init_empty by (simp add: DEFAULT_CARDS_def seed_card_def)
  note A = drop_sets_only_the_column[of "Some ''blocked''" "''77''" ?s,
      THEN conjunct2, THEN conjunct2, THEN conjunct1, THEN mp, OF absent]
  from A[THEN conjunct1] A[THEN conjunct2, THEN mp, OF objs]
  have 5: "handleDrop (Some ''blocked'') ''77'' ?s = (None, ?s)"
    by (simp only: prod_eq_iff fst_conv snd_conv simp_thms)
  have "\<exists>i<length (cards ?n). (cards ?n ! i = JNull \<or> cards ?n ! i = JUndefined)
          \<and> (\<forall>j<i. getp (cards ?n ! j) ''id'' \<noteq> Inr (JStr ''7''))"
  proof (intro exI[of _ 1] conjI allI impI)
    show "1 < length (cards ?n)" by simp
    show "cards ?n ! 1 = JNull \<or> cards ?n ! 1 = JUndefined" by simp
    fix j :: nat assume "j < 1"
    then have "j = 0" by simp
    moreover have "getp (DEFAULT_CARDS ! 5) ''id'' \<noteq> Inr (JStr ''7'')" by code_simp
    ultimately show "getp (cards ?n ! j) ''id'' \<noteq> Inr (JStr ''7'')" by simp
  qed
  note N = drop_sets_only_the_column[of "Some ''blocked''" "''7''" ?n,
      THEN conjunct2, THEN conjunct2, THEN conjunct2, THEN mp, OF this]
  have c: "(\<exists>col. Some ''blocked'' = Some col \<and> col \<in> set COLUMNS) \<and> ''7'' \<noteq> []"
    using col by simp
  have 6: "handleDrop (Some ''blocked'') ''7'' ?n = (Some TypeError, ?n)"
    using N by (simp only: c simp_thms if_True)
  from 1 2 3 4 5 6 title show ?thesis
    by (simp only: cards_init_empty)
qed

text \<open>
  C5 as stated fails for a card whose id is the empty string: \<^verbatim>\<open>handleDragStart\<close>
  stores no drag data for it and \<^verbatim>\<open>handleDrop\<close> returns at
  \<^verbatim>\<open>if (!cardId) return\<close>. The stored card has the id \<^verbatim>\<open>""\<close>, the lookup finds
  it, the target \<^verbatim>\<open>blocked\<close> is valid, and the drop changes nothing. It also fails
  for a card stored behind a \<^verbatim>\<open>null\<close> element: the lookup throws at the
  \<^verbatim>\<open>null\<close> and the card with the id \<^verbatim>\<open>a\<close> keeps its column.
\<close>

theorem drop_misses_empty_id_and_card_behind_null:
  "find_card [] (cards (snd (init \<lparr>slot = Some (Json_text (JArr [
           JObj [(''id'', JStr []), (''title'', JStr ''Untitled''), (''description'', JStr []),
                 (''column'', JStr ''to-learn''), (''tags'', JArr [])]])),
         denied = False, full = False\<rparr> four_columns_page))) = Inr (Some 0)
   \<and> ''blocked'' \<in> set COLUMNS
   \<and> cards (snd (handleDrop (Some ''blocked'') []
        (snd (init \<lparr>slot = Some (Json_text (JArr [
           JObj [(''id'', JStr []), (''title'', JStr ''Untitled''), (''description'', JStr []),
                 (''column'', JStr ''to-learn''), (''tags'', JArr [])]])),
         denied = False, full = False\<rparr> four_columns_page)))) =
       [JObj [(''id'', JStr []), (''title'', JStr ''Untitled''), (''description'', JStr []),
              (''column'', JStr ''to-learn''), (''tags'', JArr [])]]
   \<and> cards (snd (handleDrop (Some ''blocked'') ''a''
        (snd (init \<lparr>slot = Some (Json_text (JArr [JNull,
           JObj [(''id'', JStr ''a''), (''title'', JStr ''Behind''), (''description'', JStr []),
                 (''column'', JStr ''to-learn''), (''tags'', JArr [])]])),
         denied = False, full = False\<rparr> four_columns_page)))) =
       [JNull,
        JObj [(''id'', JStr ''a''), (''title'', JStr ''Behind''), (''description'', JStr []),
              (''column'', JStr ''to-learn''), (''tags'', JArr [])]]
   \<and> fst (handleDrop (Some ''blocked'') ''a''
        (snd (init \<lparr>slot = Some (Json_text (JArr [JNull,
           JObj [(''id'', JStr ''a''), (''title'', JStr ''Behind''), (''description'', JStr []),
                 (''column'', JStr ''to-learn''), (''tags'', JArr [])]])),
         denied = False, full = False\<rparr> four_columns_page))) = Some TypeError"
  by (simp add: handleDrop_def cards_init loadFromStorage_cases COLUMNS_def)

subsection \<open>Edit mode\<close>

text \<open>
  The modal is in edit mode when \<^verbatim>\<open>editingCardId\<close> is a non-empty string. No event
  sets it to the empty string: the gear click opens the modal only for a non-empty id.
\<close>

lemma editingCardId_closeModal [simp]: "editingCardId (closeModal s) = None"
  by (simp add: closeModal_def)

lemma editingCardId_handleDrop [simp]:
  "editingCardId (snd (handleDrop columnId cardId s)) = editingCardId s"
  by (simp add: handleDrop_def split: option.split sum.split)

lemma editingCardId_deleteCard [simp]:
  "editingCardId (snd (deleteCard cardId s)) = editingCardId s"
  by (simp add: deleteCard_def split: sum.split)

lemma editingCardId_openEditModal:
  "editingCardId (snd (openEditModal cardId s)) = editingCardId s
   \<or> editingCardId (snd (openEditModal cardId s)) = Some cardId"
  by (simp add: openEditModal_def split: sum.split option.split)

lemma editingCardId_submit:
  "editingCardId (snd (handleAddCardSubmit now random36 f s)) = editingCardId s
   \<or> editingCardId (snd (handleAddCardSubmit now random36 f s)) = None"
  unfolding handleAddCardSubmit_def Let_def
  by (simp split: option.split sum.split list.split)

lemma editingCardId_dispatch:
  "editingCardId (snd (dispatch ev s)) = editingCardId s
   \<or> editingCardId (snd (dispatch ev s)) = None
   \<or> (\<exists>cardId. cardId \<noteq> [] \<and> editingCardId (snd (dispatch ev s)) = Some cardId)"
proof (cases ev)
  case AddCardClick
  then show ?thesis by (simp add: dispatch_def openModal_def)
next
  case (Submit now random36 f)
  then show ?thesis using editingCardId_submit[of now random36 f s] by (auto simp: dispatch_def)
next
  case (DropOn columnId cardId)
  then show ?thesis by (simp add: dispatch_def)
next
  case (GearClick cardId)
  then show ?thesis using editingCardId_openEditModal[of cardId s] by (auto simp: dispatch_def)
next
  case (ModalDelete confirmed)
  then show ?thesis
    by (simp add: dispatch_def Let_def split: option.split list.split)
next
  case ModalClose
  then show ?thesis by (simp add: dispatch_def)
qed

lemma reachable_edit_mode_nonempty:
  "reachable ls page s \<Longrightarrow> editingCardId s \<noteq> Some []"
proof (induction rule: reachable.induct)
  case start
  then show ?case by (simp add: editingCardId_init)
next
  case (step s ev)
  with editingCardId_dispatch[of ev s] show ?case by auto
qed

subsection \<open>Editing a card\<close>

lemma cards_submit_edit:
  assumes "editingCardId s = Some cardId" "cardId \<noteq> []"
  shows "cards (snd (handleAddCardSubmit now random36 f s)) =
     (if trim (title_value f) \<noteq> [] \<and> length (form_tags f) \<le> 2 then
        (case find_card cardId (cards s) of
           Inr (Some i) \<Rightarrow> (cards s)[i := edited_card f (cards s ! i)]
         | other \<Rightarrow> cards s)
      else cards s)"
proof -
  from assms(2) obtain e es where c: "cardId = e # es" by (cases cardId) auto
  show ?thesis
    using assms(1) unfolding c handleAddCardSubmit_def Let_def edited_card_def form_due_def form_tags_def
    by (simp split: sum.split option.split add: not_less)
qed

lemma getp_edited_card:
  "getp (edited_card f (JObj ps)) k =
     (if k = ''dueDate'' then Inr (form_due f)
      else if k = ''tags'' then Inr (JArr (map JStr (form_tags f)))
      else if k = ''description'' then Inr (JStr (trim (description_value f)))
      else if k = ''title'' then Inr (JStr (trim (title_value f)))
      else getp (JObj ps) k)"
  by (simp add: edited_card_def update_conv')

lemma openEditModal_found:
  "find_card cardId (cards s) = Inr (Some i) \<Longrightarrow>
     editingCardId (snd (openEditModal cardId s)) = Some cardId"
  by (simp add: openEditModal_def)

text \<open>
  C6. \<^verbatim>\<open>updateCard(id, ...)\<close> is a submit in a state the page has reached with the
  modal in edit mode for that id. If \<^verbatim>\<open>find\<close> does not find the id (or throws on a
  \<^verbatim>\<open>null\<close> element), the collection is unchanged. If it returns the card at index
  \<open>i\<close>, the collection keeps its length,
  every other card is unchanged, and of the card itself the id, the column and every
  property other than title, description, tags and dueDate read as before; when the form
  passes the title and tag checks, those four read what the form held.
\<close>

theorem edit_changes_only_four_fields:
  assumes "reachable ls page s" and "editingCardId s = Some cardId"
  shows "let new = cards (snd (handleAddCardSubmit now random36 f s)) in
     (find_card cardId (cards s) = Inr None \<or> (\<exists>e. find_card cardId (cards s) = Inl e)
        \<longrightarrow> new = cards s)
     \<and> (\<forall>i. find_card cardId (cards s) = Inr (Some i) \<longrightarrow>
          length new = length (cards s)
          \<and> (\<forall>j. j \<noteq> i \<longrightarrow> new ! j = cards s ! j)
          \<and> getp (new ! i) ''id'' = getp (cards s ! i) ''id''
          \<and> getp (new ! i) ''column'' = getp (cards s ! i) ''column''
          \<and> (\<forall>k. k \<notin> {''title'', ''description'', ''tags'', ''dueDate''} \<longrightarrow>
                getp (new ! i) k = getp (cards s ! i) k)
          \<and> (trim (title_value f) \<noteq> [] \<and> length (form_tags f) \<le> 2 \<longrightarrow>
                getp (new ! i) ''title'' = Inr (JStr (trim (title_value f)))
                \<and> getp (new ! i) ''description'' = Inr (JStr (trim (description_value f)))
                \<and> getp (new ! i) ''tags'' = Inr (JArr (map JStr (form_tags f)))
                \<and> getp (new ! i) ''dueDate'' = Inr (form_due f)))"
proof -
  from reachable_edit_mode_nonempty[OF assms(1)] assms(2) have "cardId \<noteq> []" by auto
  note eq = cards_submit_edit[OF assms(2) this, of now random36 f]
  have none: "cards (snd (handleAddCardSubmit now random36 f s)) = cards s"
    if "find_card cardId (cards s) = Inr None \<or> (\<exists>e. find_card cardId (cards s) = Inl e)"
    using that by (auto simp: eq)
  have some: "length (cards (snd (handleAddCardSubmit now random36 f s))) = length (cards s)
          \<and> (\<forall>j. j \<noteq> i \<longrightarrow> cards (snd (handleAddCardSubmit now random36 f s)) ! j = cards s ! j)
          \<and> (\<forall>k. k \<notin> {''title'', ''description'', ''tags'', ''dueDate''} \<longrightarrow>
                getp (cards (snd (handleAddCardSubmit now random36 f s)) ! i) k = getp (cards s ! i) k)
          \<and> (trim (title_value f) \<noteq> [] \<and> length (form_tags f) \<le> 2 \<longrightarrow>
                getp (cards (snd (handleAddCardSubmit now random36 f s)) ! i) ''title'' = Inr (JStr (trim (title_value f)))
                \<and> getp (cards (snd (handleAddCardSubmit now random36 f s)) ! i) ''description'' = Inr (JStr (trim (description_value f)))
                \<and> getp (cards (snd (handleAddCardSubmit now random36 f s)) ! i) ''tags'' = Inr (JArr (map JStr (form_tags f)))
                \<and> getp (cards (snd (handleAddCardSubmit now random36 f s)) ! i) ''dueDate'' = Inr (form_due f))"
    if found: "find_card cardId (cards s) = Inr (Some i)" for i
  proof -
    from find_card_Some[OF found] have i: "i < length (cards s)" by simp
    from find_card_object[OF found] obtain ps where ps: "cards s ! i = JObj ps" by blast
    show ?thesis
      using i by (simp add: eq found ps getp_edited_card del: getp.simps)
  qed
  have frame: "getp (cards (snd (handleAddCardSubmit now random36 f s)) ! i) ''id'' = getp (cards s ! i) ''id''
      \<and> getp (cards (snd (handleAddCardSubmit now random36 f s)) ! i) ''column'' = getp (cards s ! i) ''column''"
    if found: "find_card cardId (cards s) = Inr (Some i)" for i
    using some[OF found] by simp
  show ?thesis
    unfolding Let_def using none some frame by blast
qed


text \<open>
  The gear of the seed card 6 clicked, and the "Learn Rust" form submitted.
\<close>

theorem edit_changes_only_four_fields_witness:
  "getp (cards (snd (handleAddCardSubmit 1718470800000 ''0.8f3k2jx9c'' learn_rust_form
       (snd (dispatch (GearClick ''6'') (snd (init empty_storage four_columns_page)))))) ! 5)
       ''title''
     = Inr (JStr ''Learn Rust'')
   \<and> getp (cards (snd (handleAddCardSubmit 1718470800000 ''0.8f3k2jx9c'' learn_rust_form
       (snd (dispatch (GearClick ''6'') (snd (init empty_storage four_columns_page)))))) ! 5)
       ''column''
     = Inr (JStr ''complete'')
   \<and> getp (cards (snd (handleAddCardSubmit 1718470800000 ''0.8f3k2jx9c'' learn_rust_form
       (snd (dispatch (GearClick ''6'') (snd (init empty_storage four_columns_page)))))) ! 5)
       ''id''
     = Inr (JStr ''6'')
   \<and> cards (snd (handleAddCardSubmit 1718470800000 ''0.8f3k2jx9c'' learn_rust_form
       (snd (dispatch (GearClick ''6'') (snd (init empty_storage four_columns_page)))))) ! 4
     = DEFAULT_CARDS ! 4"
proof -
  let ?ini = "snd (init empty_storage four_columns_page)"
  let ?ed = "snd (dispatch (GearClick ''6'') ?ini)"
  have found0: "find_card ''6'' (cards ?ini) = Inr (Some 5)"
    unfolding cards_init_empty by code_simp
  have click: "dispatch (GearClick ''6'') ?ini = openEditModal ''6'' ?ini"
    by (simp add: dispatch_def)
  have reach: "reachable empty_storage four_columns_page ?ed"
    by (rule reachable.step[OF reachable.start])
  have cards: "cards ?ed = DEFAULT_CARDS" by (simp add: click cards_init_empty)
  have found: "find_card ''6'' (cards ?ed) = Inr (Some 5)"
    unfolding cards by code_simp
  have editing: "editingCardId ?ed = Some ''6''"
    unfolding click using found0 by (rule openEditModal_found)
  have valid: "trim (title_value learn_rust_form) \<noteq> [] \<and> length (form_tags learn_rust_form) \<le> 2"
    by code_simp
  have title: "trim (title_value learn_rust_form) = ''Learn Rust''" by code_simp
  have col: "getp (DEFAULT_CARDS ! 5) ''column'' = Inr (JStr ''complete'')" by code_simp
  have id: "getp (DEFAULT_CARDS ! 5) ''id'' = Inr (JStr ''6'')" by code_simp
  note T = edit_changes_only_four_fields[OF reach editing, of 1718470800000 "''0.8f3k2jx9c''"
      learn_rust_form, unfolded Let_def, THEN conjunct2, THEN spec, THEN mp, OF found]
  have ne': "(4::nat) \<noteq> 5" by simp
  note 1 = T[THEN conjunct2, THEN conjunct1, THEN spec, THEN mp, OF ne']
  note 2 = T[THEN conjunct2, THEN conjunct2, THEN conjunct1]
  note 3 = T[THEN conjunct2, THEN conjunct2, THEN conjunct2, THEN conjunct1]
  note 4 = T[THEN conjunct2, THEN conjunct2, THEN conjunct2, THEN conjunct2, THEN conjunct2,
             THEN mp, OF valid, THEN conjunct1]
  show ?thesis
    using 1 2 3 4 by (simp only: cards title col id)
qed

subsection \<open>Deleting a card\<close>

lemma filter_other_ids_Inr:
  "filter_other_ids cardId cs = Inr kept \<Longrightarrow>
     kept = filter (\<lambda>c. getp c ''id'' \<noteq> Inr (JStr cardId)) cs"
  by (induction cs arbitrary: kept) (auto split: sum.splits if_splits)

lemma filter_other_ids_total:
  "\<forall>c\<in>set cs. c \<noteq> JNull \<and> c \<noteq> JUndefined \<Longrightarrow>
     filter_other_ids cardId cs = Inr (filter (\<lambda>c. getp c ''id'' \<noteq> Inr (JStr cardId)) cs)"
proof (induction cs)
  case Nil
  then show ?case by simp
next
  case (Cons c cs)
  then obtain v where v: "getp c ''id'' = Inr v" by (cases c) auto
  with Cons show ?case by simp
qed

lemma cards_deleteCard:
  "cards (snd (deleteCard cardId s)) =
     (case filter_other_ids cardId (cards s) of Inl e \<Rightarrow> cards s | Inr kept \<Rightarrow> kept)"
  by (simp add: deleteCard_def split: sum.split)

lemma filter_other_ids_throws:
  "\<exists>c\<in>set cs. c = JNull \<or> c = JUndefined \<Longrightarrow> filter_other_ids cardId cs = Inl TypeError"
proof (induction cs)
  case Nil
  then show ?case by simp
next
  case (Cons c cs)
  show ?case
  proof (cases "c = JNull \<or> c = JUndefined")
    case True
    then show ?thesis by auto
  next
    case False
    with Cons have r: "filter_other_ids cardId cs = Inl TypeError" by auto
    from False obtain v where "getp c ''id'' = Inr v" by (cases c) auto
    with r show ?thesis by simp
  qed
qed

text \<open>
  C7, as amended. On a collection of which no element is \<^verbatim>\<open>null\<close>,
  \<^verbatim>\<open>deleteCard(id)\<close> keeps, in their order, exactly the cards whose id is not the
  given string: it removes every card with that id, as many as there are, which is exactly
  one when the id occurs once. A second call with the same id leaves the collection as the
  first call left it. On a collection that holds a \<^verbatim>\<open>null\<close> element,
  \<^verbatim>\<open>deleteCard\<close> throws a TypeError and removes nothing.
\<close>

theorem delete_removes_every_card_with_the_id:
  "((\<forall>c\<in>set (cards s). c \<noteq> JNull \<and> c \<noteq> JUndefined) \<longrightarrow>
      cards (snd (deleteCard cardId s)) =
        filter (\<lambda>c. getp c ''id'' \<noteq> Inr (JStr cardId)) (cards s)
      \<and> length (cards (snd (deleteCard cardId s)))
          + length (filter (\<lambda>c. getp c ''id'' = Inr (JStr cardId)) (cards s))
        = length (cards s)
      \<and> cards (snd (deleteCard cardId (snd (deleteCard cardId s)))) =
          cards (snd (deleteCard cardId s)))
   \<and> ((\<exists>c\<in>set (cards s). c = JNull \<or> c = JUndefined) \<longrightarrow>
      deleteCard cardId s = (Some TypeError, s))"
proof (intro conjI impI)
  let ?keep = "\<lambda>c. getp c ''id'' \<noteq> Inr (JStr cardId)"
  assume objs: "\<forall>c\<in>set (cards s). c \<noteq> JNull \<and> c \<noteq> JUndefined"
  have first: "cards (snd (deleteCard cardId s)) = filter ?keep (cards s)"
    by (simp add: cards_deleteCard filter_other_ids_total[OF objs])
  have "\<forall>c\<in>set (cards (snd (deleteCard cardId s))). c \<noteq> JNull \<and> c \<noteq> JUndefined"
    using objs by (simp add: first)
  then have "cards (snd (deleteCard cardId (snd (deleteCard cardId s)))) =
      filter ?keep (cards (snd (deleteCard cardId s)))"
    by (simp add: cards_deleteCard filter_other_ids_total)
  then have second: "cards (snd (deleteCard cardId (snd (deleteCard cardId s)))) =
      cards (snd (deleteCard cardId s))"
    by (simp add: first)
  have "length (filter ?keep (cards s))
         + length (filter (\<lambda>c. \<not> ?keep c) (cards s)) = length (cards s)"
    by (rule sum_length_filter_compl)
  then have count: "length (cards (snd (deleteCard cardId s)))
          + length (filter (\<lambda>c. getp c ''id'' = Inr (JStr cardId)) (cards s))
        = length (cards s)" using first by simp
  show "cards (snd (deleteCard cardId s)) = filter ?keep (cards s)" by (rule first)
  show "length (cards (snd (deleteCard cardId s)))
          + length (filter (\<lambda>c. getp c ''id'' = Inr (JStr cardId)) (cards s))
        = length (cards s)" by (rule count)
  show "cards (snd (deleteCard cardId (snd (deleteCard cardId s)))) =
          cards (snd (deleteCard cardId s))" by (rule second)
next
  assume "\<exists>c\<in>set (cards s). c = JNull \<or> c = JUndefined"
  then have "filter_other_ids cardId (cards s) = Inl TypeError"
    by (rule filter_other_ids_throws)
  then show "deleteCard cardId s = (Some TypeError, s)" by (simp add: deleteCard_def)
qed

text \<open>
  The seed card 6 deleted from the seed data, twice; and from a collection that holds it
  beside a \<^verbatim>\<open>null\<close> element.
\<close>

theorem delete_removes_every_card_with_the_id_witness:
  "cards (snd (deleteCard ''6'' (snd (init empty_storage four_columns_page)))) =
     filter (\<lambda>c. getp c ''id'' \<noteq> Inr (JStr ''6'')) DEFAULT_CARDS
   \<and> length (cards (snd (deleteCard ''6'' (snd (init empty_storage four_columns_page))))) = 8
   \<and> cards (snd (deleteCard ''6'' (snd (deleteCard ''6''
        (snd (init empty_storage four_columns_page)))))) =
     cards (snd (deleteCard ''6'' (snd (init empty_storage four_columns_page))))
   \<and> deleteCard ''6''
        \<lparr>cards = [DEFAULT_CARDS ! 5, JNull], editingCardId = Some ''6'',
         localStorage = empty_storage, board = four_columns_page\<rparr>
     = (Some TypeError,
        \<lparr>cards = [DEFAULT_CARDS ! 5, JNull], editingCardId = Some ''6'',
         localStorage = empty_storage, board = four_columns_page\<rparr>)"
proof -
  let ?ini = "snd (init empty_storage four_columns_page)"
  let ?n = "\<lparr>cards = [DEFAULT_CARDS ! 5, JNull], editingCardId = Some ''6'',
         localStorage = empty_storage, board = four_columns_page\<rparr>"
  have objs: "\<forall>c\<in>set (cards ?ini). c \<noteq> JNull \<and> c \<noteq> JUndefined"
    unfolding cards_init_empty by (simp add: DEFAULT_CARDS_def seed_card_def)
  have one: "length (filter (\<lambda>c. getp c ''id'' = Inr (JStr ''6'')) DEFAULT_CARDS) = 1"
    by code_simp
  note T = delete_removes_every_card_with_the_id[of ?ini "''6''", THEN conjunct1, THEN mp, OF objs]
  note a = T[THEN conjunct1]
  note b = T[THEN conjunct2, THEN conjunct1]
  note c = T[THEN conjunct2, THEN conjunct2]
  have len: "length (cards (snd (deleteCard ''6'' ?ini))) = 8"
    using b unfolding cards_init_empty one length_DEFAULT_CARDS by simp
  have "\<exists>c\<in>set (cards ?n). c = JNull \<or> c = JUndefined" by simp
  note d = delete_removes_every_card_with_the_id[of ?n "''6''", THEN conjunct2, THEN mp, OF this]
  show ?thesis
    using a len c d by (simp only: cards_init_empty)
qed

text \<open>
  C7 as stated fails where two cards share an id, which nothing in the script rules out
  (stored data is not checked, and see C3): of three loaded cards, two with the id
  \<^verbatim>\<open>a\<close>, one call of \<^verbatim>\<open>deleteCard\<close> removes both. It also fails where a
  \<^verbatim>\<open>null\<close> element is stored beside the card: the filter throws and the card with
  the id \<^verbatim>\<open>a\<close> stays.
\<close>

theorem delete_removes_twins_and_nothing_beside_null:
  "length (cards (snd (init
      \<lparr>slot = Some (Json_text (JArr [
          JObj [(''id'', JStr ''a''), (''title'', JStr ''One''), (''column'', JStr ''to-learn'')],
          JObj [(''id'', JStr ''a''), (''title'', JStr ''Two''), (''column'', JStr ''blocked'')],
          JObj [(''id'', JStr ''b''), (''title'', JStr ''Three''), (''column'', JStr ''blocked'')]])),
       denied = False, full = False\<rparr> four_columns_page))) = 3
   \<and> cards (snd (deleteCard ''a'' (snd (init
      \<lparr>slot = Some (Json_text (JArr [
          JObj [(''id'', JStr ''a''), (''title'', JStr ''One''), (''column'', JStr ''to-learn'')],
          JObj [(''id'', JStr ''a''), (''title'', JStr ''Two''), (''column'', JStr ''blocked'')],
          JObj [(''id'', JStr ''b''), (''title'', JStr ''Three''), (''column'', JStr ''blocked'')]])),
       denied = False, full = False\<rparr> four_columns_page)))) =
     [JObj [(''id'', JStr ''b''), (''title'', JStr ''Three''), (''column'', JStr ''blocked'')]]
   \<and> cards (snd (deleteCard ''a'' (snd (init
      \<lparr>slot = Some (Json_text (JArr [
          JObj [(''id'', JStr ''a''), (''title'', JStr ''One''), (''column'', JStr ''to-learn'')],
          JNull])),
       denied = False, full = False\<rparr> four_columns_page)))) =
     [JObj [(''id'', JStr ''a''), (''title'', JStr ''One''), (''column'', JStr ''to-learn'')],
      JNull]
   \<and> fst (deleteCard ''a'' (snd (init
      \<lparr>slot = Some (Json_text (JArr [
          JObj [(''id'', JStr ''a''), (''title'', JStr ''One''), (''column'', JStr ''to-learn'')],
          JNull])),
       denied = False, full = False\<rparr> four_columns_page))) = Some TypeError"
  by (simp add: cards_deleteCard deleteCard_def cards_init loadFromStorage_cases)

subsection \<open>Columns in reachable states\<close>

lemma cards_submit_add_empty_id:
  assumes "trim (title_value f) \<noteq> []" "length (filter fst (tag_checkboxes f)) \<le> 2"
    and "editingCardId s = Some []"
  shows "cards (snd (handleAddCardSubmit now random36 f s)) = cards s @ [new_card now random36 f]"
proof -
  have "\<not> 2 < length (filter fst (tag_checkboxes f))" using assms(2) by simp
  then show ?thesis
    using assms(1,3)
    unfolding handleAddCardSubmit_def Let_def new_card_def form_due_def form_tags_def
    by (simp split: option.split)
qed

lemma cards_submit_cases:
  "cards (snd (handleAddCardSubmit now random36 f s)) = cards s
   \<or> cards (snd (handleAddCardSubmit now random36 f s)) = cards s @ [new_card now random36 f]
   \<or> (\<exists>i cardId. find_card cardId (cards s) = Inr (Some i)
          \<and> cards (snd (handleAddCardSubmit now random36 f s)) =
              (cards s)[i := edited_card f (cards s ! i)])"
proof (cases "trim (title_value f) = [] \<or> 2 < length (filter fst (tag_checkboxes f))")
  case True
  then show ?thesis by (simp add: submit_rejected)
next
  case False
  then have valid: "trim (title_value f) \<noteq> []" "length (filter fst (tag_checkboxes f)) \<le> 2"
    by auto
  show ?thesis
  proof (cases "editingCardId s")
    case None
    then show ?thesis using cards_submit_add[OF valid] by simp
  next
    case (Some cardId)
    show ?thesis
    proof (cases "cardId = []")
      case True
      with Some show ?thesis using cards_submit_add_empty_id[OF valid] by simp
    next
      case False
      note eq = cards_submit_edit[OF Some False, of now random36 f]
      show ?thesis
      proof (cases "find_card cardId (cards s)")
        case (Inl e)
        then show ?thesis by (simp add: eq)
      next
        case (Inr found)
        then show ?thesis by (cases found) (auto simp: eq)
      qed
    qed
  qed
qed

lemma column_valid_new_card: "column_valid (new_card now random36 f)"
  by (simp add: column_valid_def new_card_def COLUMNS_def)

lemma column_valid_edited_card:
  "column_valid (JObj ps) \<Longrightarrow> column_valid (edited_card f (JObj ps))"
  unfolding column_valid_def getp_edited_card by simp

lemma column_valid_setp_column:
  "col \<in> set COLUMNS \<Longrightarrow> column_valid (setp (JObj ps) ''column'' (JStr col))"
  unfolding column_valid_def getp_setp by simp

lemma list_all_update:
  "list_all P xs \<Longrightarrow> P y \<Longrightarrow> list_all P (xs[i := y])"
  unfolding list_all_iff using set_update_subset_insert[of xs i y] by auto

lemma submit_keeps_columns_valid:
  assumes "list_all column_valid (cards s)"
  shows "list_all column_valid (cards (snd (handleAddCardSubmit now random36 f s)))"
proof -
  from cards_submit_cases[of now random36 f s]
  consider "cards (snd (handleAddCardSubmit now random36 f s)) = cards s"
    | "cards (snd (handleAddCardSubmit now random36 f s)) = cards s @ [new_card now random36 f]"
    | i cardId where "find_card cardId (cards s) = Inr (Some i)"
        "cards (snd (handleAddCardSubmit now random36 f s)) =
              (cards s)[i := edited_card f (cards s ! i)]"
    by blast
  then show ?thesis
  proof cases
    case 1
    with assms show ?thesis by simp
  next
    case 2
    with assms show ?thesis by (simp add: column_valid_new_card)
  next
    case 3
    from find_card_Some[OF 3(1)] have i: "i < length (cards s)" by simp
    from find_card_object[OF 3(1)] obtain ps where ps: "cards s ! i = JObj ps" by blast
    from assms i have "column_valid (cards s ! i)" by (simp add: list_all_length)
    then have "column_valid (edited_card f (cards s ! i))"
      unfolding ps by (rule column_valid_edited_card)
    with assms show ?thesis unfolding 3(2) by (rule list_all_update)
  qed
qed

lemma drop_keeps_columns_valid:
  assumes "list_all column_valid (cards s)"
  shows "list_all column_valid (cards (snd (handleDrop columnId cardId s)))"
proof (cases "\<exists>col i. columnId = Some col \<and> col \<in> set COLUMNS \<and> cardId \<noteq> []
        \<and> find_card cardId (cards s) = Inr (Some i)")
  case True
  then obtain col i where a: "columnId = Some col" "col \<in> set COLUMNS" "cardId \<noteq> []"
      "find_card cardId (cards s) = Inr (Some i)" by blast
  from find_card_object[OF a(4)] obtain ps where ps: "cards s ! i = JObj ps" by blast
  have "column_valid (setp (cards s ! i) ''column'' (JStr col))"
    unfolding ps using a(2) by (rule column_valid_setp_column)
  with assms show ?thesis
    unfolding a(1) cards_handleDrop_found[OF a(2,3,4)] by (rule list_all_update)
next
  case False
  then have "cards (snd (handleDrop columnId cardId s)) = cards s"
    by (auto simp: handleDrop_def split: option.split sum.split)
  with assms show ?thesis by simp
qed

lemma delete_keeps_columns_valid:
  assumes "list_all column_valid (cards s)"
  shows "list_all column_valid (cards (snd (deleteCard cardId s)))"
proof (cases "filter_other_ids cardId (cards s)")
  case (Inl e)
  with assms show ?thesis by (simp add: cards_deleteCard)
next
  case (Inr kept)
  from filter_other_ids_Inr[OF Inr] assms show ?thesis
    by (simp add: cards_deleteCard Inr list_all_iff)
qed

lemma dispatch_keeps_columns_valid:
  assumes "list_all column_valid (cards s)"
  shows "list_all column_valid (cards (snd (dispatch ev s)))"
proof (cases ev)
  case AddCardClick
  then show ?thesis using assms by (simp add: dispatch_def openModal_def)
next
  case (Submit now random36 f)
  then show ?thesis using submit_keeps_columns_valid[OF assms] by (simp add: dispatch_def)
next
  case (DropOn columnId cardId)
  then show ?thesis using drop_keeps_columns_valid[OF assms] by (simp add: dispatch_def)
next
  case (GearClick cardId)
  then show ?thesis using assms by (simp add: dispatch_def)
next
  case (ModalDelete confirmed)
  then show ?thesis
    using assms delete_keeps_columns_valid[OF assms]
    by (simp add: dispatch_def Let_def split: option.split list.split)
next
  case ModalClose
  then show ?thesis using assms by (simp add: dispatch_def)
qed

text \<open>
  If every card that \<^verbatim>\<open>loadFromStorage\<close> returns has one of the four columns, so has
  every card in every state the page reaches: a new card is put in \<^verbatim>\<open>to-learn\<close>, an
  edit leaves the column alone, a drop assigns a column only after
  \<^verbatim>\<open>COLUMNS.includes\<close> accepted it, and a delete only removes cards.
\<close>

theorem valid_columns_are_kept:
  assumes "list_all column_valid (loadFromStorage ls)" and "reachable ls page s"
  shows "list_all column_valid (cards s)"
  using assms(2)
proof (induction rule: reachable.induct)
  case start
  then show ?case using assms(1) by (simp add: cards_init)
next
  case (step s ev)
  then show ?case by (simp add: dispatch_keeps_columns_valid)
qed

text \<open>A valid stored card, dropped on \<^verbatim>\<open>blocked\<close>.\<close>

theorem valid_columns_are_kept_witness:
  "list_all column_valid (cards (snd (dispatch (DropOn (Some ''blocked'') ''y'')
     (snd (init \<lparr>slot = Some (Json_text (JArr [
             JObj [(''id'', JStr ''y''), (''title'', JStr ''Fine''), (''description'', JStr []),
                   (''column'', JStr ''to-learn''), (''tags'', JArr [])]])),
           denied = False, full = False\<rparr> four_columns_page)))))"
proof -
  have "list_all column_valid (loadFromStorage \<lparr>slot = Some (Json_text (JArr [
             JObj [(''id'', JStr ''y''), (''title'', JStr ''Fine''), (''description'', JStr []),
                   (''column'', JStr ''to-learn''), (''tags'', JArr [])]])),
           denied = False, full = False\<rparr>)"
    by code_simp
  then show ?thesis
    by (rule valid_columns_are_kept) (rule reachable.step[OF reachable.start])
qed

subsection \<open>Saving and loading again\<close>

lemma load_after_save:
  assumes "\<not> denied (localStorage s)" "\<not> full (localStorage s)" "cards s \<noteq> []"
  shows "loadFromStorage (localStorage (saveToStorage s)) =
           map (\<lambda>v. if v = JUndefined then JNull else to_json v) (cards s)"
proof -
  from assms(3) obtain c cs where cs: "cards s = c # cs" by (cases "cards s") auto
  show ?thesis
    using assms(1,2)
    by (simp add: saveToStorage_def setItem_def JSON_stringify_def loadFromStorage_cases cs)
qed

lemma load_after_failed_save:
  assumes "denied (localStorage s) \<or> full (localStorage s)"
  shows "loadFromStorage (localStorage (saveToStorage s)) = loadFromStorage (localStorage s)"
  using assms by (auto simp: saveToStorage_def setItem_def)

text \<open>
  What \<^verbatim>\<open>JSON.stringify\<close> keeps of an object reads, property by property, as the
  \<^verbatim>\<open>JSON.stringify\<close> image of what the object held; strings and arrays of strings are
  their own image.
\<close>

lemma map_of_filter_distinct:
  "distinct (map fst ps) \<Longrightarrow>
     map_of (filter P ps) k =
       (case map_of ps k of None \<Rightarrow> None | Some v \<Rightarrow> if P (k, v) then Some v else None)"
proof (induction ps)
  case Nil
  then show ?case by simp
next
  case (Cons p ps)
  obtain k' v' where p: "p = (k', v')" by (cases p)
  show ?case
  proof (cases "k = k'")
    case True
    with Cons.prems p have "map_of ps k = None"
      by (simp add: map_of_eq_None_iff)
    with Cons p True show ?thesis by simp
  next
    case False
    with Cons p show ?thesis by simp
  qed
qed

lemma getp_to_json_obj:
  assumes "distinct (map fst ps)"
  shows "getp (to_json (JObj ps)) k =
           Inr (case map_of ps k of None \<Rightarrow> JUndefined | Some v \<Rightarrow> to_json v)"
proof -
  have "map_of (map (\<lambda>(k, v). (k, to_json v)) (filter (\<lambda>(k, v). v \<noteq> JUndefined) ps)) k =
          map_option to_json (map_of (filter (\<lambda>(k, v). v \<noteq> JUndefined) ps) k)"
    by (simp add: map_of_map)
  then show ?thesis
    by (simp add: map_of_filter_distinct[OF assms] split: option.split)
qed

lemma to_json_string_array: "list_all is_JStr ts \<Longrightarrow> to_json (JArr ts) = JArr ts"
proof -
  assume a: "list_all is_JStr ts"
  have "map (\<lambda>v. if v = JUndefined then JNull else to_json v) ts = ts"
  proof (rule map_idI)
    fix v assume "v \<in> set ts"
    with a have "is_JStr v" by (simp add: list_all_iff)
    then show "(if v = JUndefined then JNull else to_json v) = v" by (cases v) auto
  qed
  then show ?thesis by simp
qed

lemma to_json_card_field:
  assumes "spec_Card_shaped c" "k \<in> set CARD_FIELDS"
  shows "getp (to_json c) k = getp c k"
proof -
  from assms(1) obtain ps where c: "c = JObj ps" by (cases c) auto
  from assms(1) have d: "distinct (map fst ps)" by (simp add: c)
  have stable: "(case map_of ps k of None \<Rightarrow> JUndefined | Some v \<Rightarrow> to_json v) =
                (case map_of ps k of None \<Rightarrow> JUndefined | Some v \<Rightarrow> v)"
  proof (cases "map_of ps k")
    case None
    then show ?thesis by simp
  next
    case (Some v)
    have "to_json v = v"
    proof (cases v)
      case (JArr ts)
      with Some assms c have "list_all is_JStr ts"
        by (auto simp: CARD_FIELDS_def)
      then show ?thesis unfolding JArr by (rule to_json_string_array)
    next
      case (JObj qs)
      with Some assms c show ?thesis by (auto simp: CARD_FIELDS_def)
    qed simp_all
    with Some show ?thesis by simp
  qed
  show ?thesis
    unfolding c getp_to_json_obj[OF d] stable by simp
qed


text \<open>
  C8, as amended. When the storage can be accessed and accepts the write, saving a
  non-empty collection of Card-shaped records and loading it again gives a collection of
  the same length in which the card at each position reads the same id, title,
  description, column, tags and dueDate as the card saved at that position.
\<close>

theorem save_then_load_returns_the_cards:
  assumes "\<not> denied (localStorage s)" and "\<not> full (localStorage s)"
    and "cards s \<noteq> []" and "list_all spec_Card_shaped (cards s)"
  shows "length (loadFromStorage (localStorage (saveToStorage s))) = length (cards s)
     \<and> (\<forall>i<length (cards s). \<forall>k\<in>set CARD_FIELDS.
           getp (loadFromStorage (localStorage (saveToStorage s)) ! i) k = getp (cards s ! i) k)"
proof -
  note eq = load_after_save[OF assms(1,2,3)]
  have "getp (loadFromStorage (localStorage (saveToStorage s)) ! i) k = getp (cards s ! i) k"
    if i: "i < length (cards s)" and k: "k \<in> set CARD_FIELDS" for i k
  proof -
    from assms(4) i have shaped: "spec_Card_shaped (cards s ! i)"
      by (simp add: list_all_length)
    then have "cards s ! i \<noteq> JUndefined" by auto
    with i have "loadFromStorage (localStorage (saveToStorage s)) ! i = to_json (cards s ! i)"
      by (simp add: eq)
    then show ?thesis by (simp add: to_json_card_field[OF shaped k])
  qed
  then show ?thesis by (simp add: eq)
qed

lemma new_card_learn_rust_shaped:
  "spec_Card_shaped (JObj [(''id'', JStr ''lxgd57k08f3k2jx9c''), (''title'', JStr ''Learn Rust''),
           (''description'', JStr []), (''tags'', JArr [JStr ''Back-End'']),
           (''column'', JStr ''to-learn''), (''dueDate'', JUndefined)])"
  by code_simp

lemma DEFAULT_CARDS_shaped: "list_all spec_Card_shaped DEFAULT_CARDS"
  by code_simp

lemma storage_submit_add:
  assumes "trim (title_value f) \<noteq> []" "length (filter fst (tag_checkboxes f)) \<le> 2"
    and "editingCardId s = None"
  shows "localStorage (snd (handleAddCardSubmit now random36 f s)) =
           localStorage (saveToStorage (s\<lparr>cards := cards s @ [new_card now random36 f]\<rparr>))"
proof -
  have "\<not> 2 < length (filter fst (tag_checkboxes f))" using assms(2) by simp
  then show ?thesis
    using assms(1,3)
    unfolding handleAddCardSubmit_def Let_def new_card_def form_due_def form_tags_def
    by (simp split: option.split add: closeModal_def)
qed

lemma localStorage_init: "localStorage (snd (init ls page)) =
    localStorage (saveToStorage \<lparr>cards = loadFromStorage ls, editingCardId = None,
       localStorage = ls, board = page\<rparr>)"
  by (simp add: init_def)


lemma denied_saveToStorage [simp]: "denied (localStorage (saveToStorage s)) = denied (localStorage s)"
  by (simp add: saveToStorage_def setItem_def)

lemma full_saveToStorage [simp]: "full (localStorage (saveToStorage s)) = full (localStorage s)"
  by (simp add: saveToStorage_def setItem_def)

lemma saveToStorage_full: "full (localStorage s) \<Longrightarrow> localStorage (saveToStorage s) = localStorage s"
  by (simp add: saveToStorage_def setItem_def)

text \<open>The seed data with the "Learn Rust" card added, saved and loaded again.\<close>

theorem save_then_load_returns_the_cards_witness:
  "length (loadFromStorage (localStorage (saveToStorage
      (snd (handleAddCardSubmit 1718470800000 ''0.8f3k2jx9c'' learn_rust_form
         (snd (init empty_storage four_columns_page))))))) = 10
   \<and> getp (loadFromStorage (localStorage (saveToStorage
      (snd (handleAddCardSubmit 1718470800000 ''0.8f3k2jx9c'' learn_rust_form
         (snd (init empty_storage four_columns_page)))))) ! 9) ''title''
     = Inr (JStr ''Learn Rust'')
   \<and> getp (loadFromStorage (localStorage (saveToStorage
      (snd (handleAddCardSubmit 1718470800000 ''0.8f3k2jx9c'' learn_rust_form
         (snd (init empty_storage four_columns_page)))))) ! 9) ''dueDate''
     = Inr JUndefined"
proof -
  let ?ini = "snd (init empty_storage four_columns_page)"
  let ?st = "snd (handleAddCardSubmit 1718470800000 ''0.8f3k2jx9c'' learn_rust_form ?ini)"
  have 1: "trim (title_value learn_rust_form) \<noteq> []" by code_simp
  have 2: "length (filter fst (tag_checkboxes learn_rust_form)) \<le> 2" by code_simp
  have 3: "editingCardId ?ini = None" by (rule editingCardId_init)
  have cards: "cards ?st = DEFAULT_CARDS @ [new_card 1718470800000 ''0.8f3k2jx9c'' learn_rust_form]"
    by (simp only: cards_submit_add[OF 1 2 3] cards_init_empty)
  have nd: "\<not> denied (localStorage ?st)"
    unfolding storage_submit_add[OF 1 2 3]
    by (simp add: localStorage_init empty_storage_def)
  have nf: "\<not> full (localStorage ?st)"
    unfolding storage_submit_add[OF 1 2 3]
    by (simp add: localStorage_init empty_storage_def)
  have ne: "cards ?st \<noteq> []" by (simp add: cards)
  have shaped: "list_all spec_Card_shaped (cards ?st)"
    unfolding cards new_card_learn_rust
    using DEFAULT_CARDS_shaped new_card_learn_rust_shaped by simp
  note T = save_then_load_returns_the_cards[OF nd nf ne shaped]
  have len: "length (cards ?st) = 10" by (simp add: cards length_DEFAULT_CARDS)
  have i: "9 < length (cards ?st)" by (simp add: len)
  have last: "cards ?st ! 9 = new_card 1718470800000 ''0.8f3k2jx9c'' learn_rust_form"
    by (simp add: cards nth_append length_DEFAULT_CARDS)
  have k1: "''title'' \<in> set CARD_FIELDS" by (simp add: CARD_FIELDS_def)
  have k2: "''dueDate'' \<in> set CARD_FIELDS" by (simp add: CARD_FIELDS_def)
  note f1 = T[THEN conjunct2, THEN spec, THEN mp, OF i, THEN bspec, OF k1]
  note f2 = T[THEN conjunct2, THEN spec, THEN mp, OF i, THEN bspec, OF k2]
  have v1: "getp (new_card 1718470800000 ''0.8f3k2jx9c'' learn_rust_form) ''title''
              = Inr (JStr ''Learn Rust'')" by code_simp
  have v2: "getp (new_card 1718470800000 ''0.8f3k2jx9c'' learn_rust_form) ''dueDate''
              = Inr JUndefined" by code_simp
  show ?thesis
    using T[THEN conjunct1] f1 f2 by (simp only: len last v1 v2)
qed

text \<open>
  C8 as stated fails in a browser whose storage refuses the write
  (\<^verbatim>\<open>saveToStorage\<close> catches the exception and logs it): the store holds the nine seed
  cards and the card just added, and loading after saving returns the nine seed cards.
\<close>

theorem save_is_lost_when_the_write_fails:
  "length (cards (snd (handleAddCardSubmit 1718470800000 ''0.8f3k2jx9c'' learn_rust_form
      (snd (init \<lparr>slot = None, denied = False, full = True\<rparr> four_columns_page))))) = 10
   \<and> list_all spec_Card_shaped
       (cards (snd (handleAddCardSubmit 1718470800000 ''0.8f3k2jx9c'' learn_rust_form
         (snd (init \<lparr>slot = None, denied = False, full = True\<rparr> four_columns_page)))))
   \<and> length (loadFromStorage (localStorage (saveToStorage
       (snd (handleAddCardSubmit 1718470800000 ''0.8f3k2jx9c'' learn_rust_form
         (snd (init \<lparr>slot = None, denied = False, full = True\<rparr> four_columns_page))))))) = 9"
proof -
  let ?ls = "\<lparr>slot = None, denied = False, full = True\<rparr>"
  let ?ini = "snd (init ?ls four_columns_page)"
  let ?st = "snd (handleAddCardSubmit 1718470800000 ''0.8f3k2jx9c'' learn_rust_form ?ini)"
  have 1: "trim (title_value learn_rust_form) \<noteq> []" by code_simp
  have 2: "length (filter fst (tag_checkboxes learn_rust_form)) \<le> 2" by code_simp
  have 3: "editingCardId ?ini = None" by (rule editingCardId_init)
  have load: "loadFromStorage ?ls = DEFAULT_CARDS" by (simp add: loadFromStorage_cases)
  have cards: "cards ?st = DEFAULT_CARDS @ [new_card 1718470800000 ''0.8f3k2jx9c'' learn_rust_form]"
    by (simp only: cards_submit_add[OF 1 2 3] cards_init load)
  have st: "localStorage ?st = ?ls"
    unfolding storage_submit_add[OF 1 2 3]
    by (simp add: localStorage_init saveToStorage_full)
  have after: "localStorage (saveToStorage ?st) = ?ls"
    by (simp add: saveToStorage_full st)
  have shaped: "list_all spec_Card_shaped (cards ?st)"
    unfolding cards new_card_learn_rust
    using DEFAULT_CARDS_shaped new_card_learn_rust_shaped by simp
  have len: "length (cards ?st) = 10" by (simp add: cards length_DEFAULT_CARDS)
  show ?thesis
    using shaped len by (simp only: after load length_DEFAULT_CARDS) 
qed

subsection \<open>The due date label\<close>

lemma MS_PER_DAY_pos: "0 < MS_PER_DAY"
  by (simp add: MS_PER_DAY_def)

lemma setHours0_day: "setHours0 tz t = (t + tz) div MS_PER_DAY * MS_PER_DAY - tz"
proof -
  have "(t + tz) div MS_PER_DAY * MS_PER_DAY + (t + tz) mod MS_PER_DAY = t + tz"
    by simp
  then show ?thesis unfolding setHours0_def by linarith
qed

lemma Math_round_div_mult:
  assumes "0 < b"
  shows "Math_round_div (k * b) b = k"
proof -
  have "2 * (k * b) + b = (2 * k + 1) * b" by (simp add: algebra_simps)
  moreover have "(2 * k + 1) * b div (2 * b) = (2 * k + 1) div 2"
    using assms by simp
  moreover have "(2 * k + 1) div 2 = k" by simp
  ultimately show ?thesis by (simp add: Math_round_div_def)
qed

text \<open>
  The label depends on the local day numbers of the two times only: both are moved to the
  start of their local day, so their difference is a whole number of days.
\<close>

lemma getDueDateLabel_days:
  assumes "Date_parse str = Some due"
  shows "getDueDateLabel tz now str =
           spec_days_label ((due + tz) div MS_PER_DAY - (now + tz) div MS_PER_DAY)"
proof -
  from assms have ne: "str \<noteq> []" by (auto simp: Date_parse_def)
  let ?n = "(due + tz) div MS_PER_DAY - (now + tz) div MS_PER_DAY"
  have "setHours0 tz due - setHours0 tz now = ?n * MS_PER_DAY"
    by (simp add: setHours0_day algebra_simps)
  then have d: "Math_round_div (setHours0 tz due - setHours0 tz now) MS_PER_DAY = ?n"
    by (simp add: Math_round_div_mult[OF MS_PER_DAY_pos])
  have "getDueDateLabel tz now str =
          (if 0 < ?n then ''Due in '' @ int_toString 10 ?n @ '' day'' @ (if ?n = 1 then [] else ''s'')
           else if ?n = 0 then ''Due today''
           else if \<bar>?n\<bar> = 1 then ''1 day overdue''
           else int_toString 10 \<bar>?n\<bar> @ '' days overdue'')"
    using ne assms by (simp add: getDueDateLabel_def Let_def d)
  also have "\<dots> = spec_days_label ?n"
  proof -
    have one: "int_toString 10 1 = ''1''" by code_simp
    consider "0 < ?n" | "?n = 0" | "?n = - 1" | "?n < - 1" by linarith
    then show ?thesis
    proof cases
      case 1
      then show ?thesis by (simp add: spec_days_label_def)
    next
      case 2
      then show ?thesis by (simp add: spec_days_label_def)
    next
      case 3
      then show ?thesis by (simp add: spec_days_label_def one)
    next
      case 4
      then have "\<bar>?n\<bar> = - ?n" "\<bar>?n\<bar> \<noteq> 1" "?n \<noteq> - 1" "\<not> 0 < ?n" "?n \<noteq> 0" by simp_all
      then show ?thesis by (simp add: spec_days_label_def)
    qed
  qed
  finally show ?thesis .
qed

lemma Date_parse_midnight:
  "Date_parse str = Some due \<Longrightarrow> due mod MS_PER_DAY = 0"
  by (auto simp: Date_parse_def split: if_splits option.splits)


lemma day_of_shifted_midnight:
  assumes "due mod MS_PER_DAY = 0"
  shows "(due + tz) div MS_PER_DAY = due div MS_PER_DAY + tz div MS_PER_DAY"
proof -
  from assms have "due = due div MS_PER_DAY * MS_PER_DAY"
    by (metis add.right_neutral div_mult_mod_eq)
  then have "(due + tz) div MS_PER_DAY = (tz + due div MS_PER_DAY * MS_PER_DAY) div MS_PER_DAY"
    by (simp add: add.commute)
  also have "\<dots> = tz div MS_PER_DAY + due div MS_PER_DAY"
    using MS_PER_DAY_pos by simp
  finally show ?thesis by simp
qed

text \<open>
  In a zone at or ahead of UTC by less than a day, the label is empty for an empty date
  string and for one that \<open>Date_parse\<close> does not read, and for a date of the form
  \<^verbatim>\<open>YYYY-MM-DD\<close> it is the specification's label for the number of calendar days
  from today's local day to the day the string names.
\<close>

theorem label_counts_days_at_or_east_of_utc:
  assumes "0 \<le> tz" and "tz < MS_PER_DAY"
  shows "(str = [] \<or> Date_parse str = None \<longrightarrow> getDueDateLabel tz now str = [])
     \<and> (\<forall>due. Date_parse str = Some due \<longrightarrow>
           getDueDateLabel tz now str =
             spec_days_label (due div MS_PER_DAY - (now + tz) div MS_PER_DAY))"
proof (intro conjI allI impI)
  assume "str = [] \<or> Date_parse str = None"
  then show "getDueDateLabel tz now str = []"
    by (auto simp: getDueDateLabel_def)
next
  fix due
  assume p: "Date_parse str = Some due"
  from assms have "tz div MS_PER_DAY = 0" by simp
  with day_of_shifted_midnight[OF Date_parse_midnight[OF p], of tz]
  have "(due + tz) div MS_PER_DAY = due div MS_PER_DAY" by simp
  then show "getDueDateLabel tz now str =
             spec_days_label (due div MS_PER_DAY - (now + tz) div MS_PER_DAY)"
    by (simp add: getDueDateLabel_days[OF p])
qed

text \<open>In a zone behind UTC the count is one day short.\<close>

lemma label_is_one_day_early_west_of_utc:
  assumes "- MS_PER_DAY \<le> tz" and "tz < 0" and "Date_parse str = Some due"
  shows "getDueDateLabel tz now str =
           spec_days_label (due div MS_PER_DAY - 1 - (now + tz) div MS_PER_DAY)"
proof -
  from assms(1,2) have "(tz + MS_PER_DAY) div MS_PER_DAY = 0" by simp
  moreover have "MS_PER_DAY \<noteq> 0" using MS_PER_DAY_pos by simp
  then have "(tz + MS_PER_DAY) div MS_PER_DAY = tz div MS_PER_DAY + 1"
    by (rule div_add_self2)
  ultimately have "tz div MS_PER_DAY = - 1" by simp
  with day_of_shifted_midnight[OF Date_parse_midnight[OF assms(3)], of tz]
  have "(due + tz) div MS_PER_DAY = due div MS_PER_DAY - 1" by simp
  then show ?thesis by (simp add: getDueDateLabel_days[OF assms(3)])
qed


text \<open>Two hours ahead of UTC, at 19:00 local time of 15 June 2024.\<close>

theorem label_counts_days_at_or_east_of_utc_witness:
  "getDueDateLabel 7200000 1718470800000 ''2024-06-25'' = ''Due in 10 days''
   \<and> getDueDateLabel 7200000 1718470800000 ''2024-06-15'' = ''Due today''
   \<and> getDueDateLabel 7200000 1718470800000 [] = []"
proof -
  have tz: "(0::int) \<le> 7200000" "(7200000::int) < MS_PER_DAY" by (simp_all add: MS_PER_DAY_def)
  note T = label_counts_days_at_or_east_of_utc[OF tz]
  have p1: "Date_parse ''2024-06-25'' = Some 1719273600000" by code_simp
  have p2: "Date_parse ''2024-06-15'' = Some 1718409600000" by code_simp
  have l1: "spec_days_label (1719273600000 div MS_PER_DAY - (1718470800000 + 7200000) div MS_PER_DAY)
              = ''Due in 10 days''" by code_simp
  have l2: "spec_days_label (1718409600000 div MS_PER_DAY - (1718470800000 + 7200000) div MS_PER_DAY)
              = ''Due today''" by code_simp
  have e: "[] = [] \<or> Date_parse [] = None" by simp
  note a = T[of "''2024-06-25''" 1718470800000, THEN conjunct2, THEN spec, THEN mp, OF p1]
  note b = T[of "''2024-06-15''" 1718470800000, THEN conjunct2, THEN spec, THEN mp, OF p2]
  note c = T[of "[]" 1718470800000, THEN conjunct1, THEN mp, OF e]
  show ?thesis using a b c by (simp only: l1 l2)
qed

text \<open>
  C9 (the label counts calendar days between the due date and today, and a date that is
  today reads "Due today"). The script breaks it in every zone behind UTC:
  \<^verbatim>\<open>new Date("2024-06-15")\<close> is midnight UTC, which five hours behind UTC is 19:00 of
  14 June, and \<^verbatim>\<open>setHours(0, 0, 0, 0)\<close> then moves it to the start of 14 June. At
  local noon of 15 June 2024 in such a zone, the due date 2024-06-15 is today and is
  labelled one day overdue.
\<close>

theorem due_today_reads_overdue_west_of_utc:
  "Date_parse ''2024-06-15'' = Some (days_from_civil 2024 6 15 * MS_PER_DAY)
   \<and> (1718470800000 + (- 18000000)) div MS_PER_DAY = days_from_civil 2024 6 15
   \<and> getDueDateLabel (- 18000000) 1718470800000 ''2024-06-15'' = ''1 day overdue''"
  by code_simp

subsection \<open>Rendering the board\<close>

lemma render_cards_plain:
  assumes "list_all renders cs" and "\<forall>col\<in>set own. b col \<noteq> None"
  shows "render_cards own cs b =
           (None, \<lambda>col. if col \<in> set own
                         then Some (the (b col) @ map Card_element (filter (\<lambda>c. column_key c = col) cs))
                         else b col)"
  using assms
proof (induction cs arbitrary: b)
  case Nil
  then show ?case by (auto simp: fun_eq_iff)
next
  case (Cons c cs)
  from Cons.prems(1) have c: "renders c" and rest: "list_all renders cs" by simp_all
  from c have el: "createCardElement c = Inr (Card_element c)"
    by (simp add: renders_def)
  from c obtain v where v: "getp c ''column'' = Inr v"
    by (auto simp: renders_def split: sum.splits)
  with c obtain k where k: "ToString v = Inr k"
    by (auto simp: renders_def split: sum.splits)
  from c have proto: "k \<notin> set OBJECT_PROTOTYPE_KEYS"
    by (simp add: renders_def v k)
  have key: "column_key c = k" by (simp add: column_key_def v k)
  show ?case
  proof (cases "k \<in> set own")
    case True
    let ?b = "b(k \<mapsto> (case b k of None \<Rightarrow> [] | Some els \<Rightarrow> els) @ [Card_element c])"
    from Cons.prems(2) have b': "\<forall>col\<in>set own. ?b col \<noteq> None" by simp
    from Cons.prems(2) True obtain els where els: "b k = Some els" by auto
    have "render_cards own (c # cs) b = render_cards own cs ?b"
      using True by (simp add: v k el)
    also have "\<dots> = (None, \<lambda>col. if col \<in> set own
                         then Some (the (?b col) @ map Card_element (filter (\<lambda>c. column_key c = col) cs))
                         else ?b col)"
      by (rule Cons.IH[OF rest b'])
    also have "(\<lambda>col. if col \<in> set own
                         then Some (the (?b col) @ map Card_element (filter (\<lambda>c. column_key c = col) cs))
                         else ?b col) =
               (\<lambda>col. if col \<in> set own
                         then Some (the (b col) @ map Card_element (filter (\<lambda>c. column_key c = col) (c # cs)))
                         else b col)"
      using True by (auto simp: fun_eq_iff key els)
    finally show ?thesis .
  next
    case False
    have "render_cards own (c # cs) b = render_cards own cs b"
      using False proto by (simp add: v k)
    also have "\<dots> = (None, \<lambda>col. if col \<in> set own
                         then Some (the (b col) @ map Card_element (filter (\<lambda>c. column_key c = col) cs))
                         else b col)"
      by (rule Cons.IH[OF rest Cons.prems(2)])
    also have "(\<lambda>col. if col \<in> set own
                         then Some (the (b col) @ map Card_element (filter (\<lambda>c. column_key c = col) cs))
                         else b col) =
               (\<lambda>col. if col \<in> set own
                         then Some (the (b col) @ map Card_element (filter (\<lambda>c. column_key c = col) (c # cs)))
                         else b col)"
      using False by (auto simp: fun_eq_iff key)
    finally show ?thesis .
  qed
qed

text \<open>
  When every card renders (its column can be read and names no property of
  \<^verbatim>\<open>Object.prototype\<close>, and its element can be built), \<^verbatim>\<open>renderBoard\<close> throws
  nothing, and each container the page has for one of the four columns holds exactly the
  elements of the cards whose column is that name, in the order of the collection; every
  other container of the page is untouched. A card whose column is none of the four is
  in none of them.
\<close>

theorem render_puts_each_card_in_its_column:
  assumes "list_all renders (cards s)"
  shows "fst (renderBoard s) = None
     \<and> (\<forall>col. board (snd (renderBoard s)) col =
          (if col \<in> set COLUMNS \<and> board s col \<noteq> None
           then Some (map Card_element (filter (\<lambda>c. column_key c = col) (cards s)))
           else board s col))"
proof -
  let ?own = "filter (\<lambda>col. board s col \<noteq> None) COLUMNS"
  let ?cleared = "\<lambda>col. if col \<in> set ?own then Some [] else board s col"
  have "\<forall>col\<in>set ?own. ?cleared col \<noteq> None" by simp
  from render_cards_plain[OF assms this]
  show ?thesis by (simp add: renderBoard_def Let_def)
qed


text \<open>
  The seed data on a page with the four containers: the four \<^verbatim>\<open>to-learn\<close> cards are
  in their container, and the card of the column \<^verbatim>\<open>complete\<close> is in none.
\<close>

theorem render_puts_each_card_in_its_column_witness:
  "fst (renderBoard \<lparr>cards = DEFAULT_CARDS, editingCardId = None,
         localStorage = empty_storage, board = four_columns_page\<rparr>) = None
   \<and> board (snd (renderBoard \<lparr>cards = DEFAULT_CARDS, editingCardId = None,
         localStorage = empty_storage, board = four_columns_page\<rparr>)) ''to-learn'' =
       Some (map Card_element
         [DEFAULT_CARDS ! 4, DEFAULT_CARDS ! 6, DEFAULT_CARDS ! 7, DEFAULT_CARDS ! 8])
   \<and> board (snd (renderBoard \<lparr>cards = DEFAULT_CARDS, editingCardId = None,
         localStorage = empty_storage, board = four_columns_page\<rparr>)) ''complete'' = None"
proof -
  let ?s = "\<lparr>cards = DEFAULT_CARDS, editingCardId = None,
         localStorage = empty_storage, board = four_columns_page\<rparr>"
  have r: "list_all renders (cards ?s)" by code_simp
  note T = render_puts_each_card_in_its_column[OF r]
  have a: "''to-learn'' \<in> set COLUMNS \<and> board ?s ''to-learn'' \<noteq> None"
    by (simp add: COLUMNS_def four_columns_page_def)
  have b: "\<not> (''complete'' \<in> set COLUMNS \<and> board ?s ''complete'' \<noteq> None)"
    by (simp add: COLUMNS_def)
  have f: "filter (\<lambda>c. column_key c = ''to-learn'') (cards ?s) =
      [DEFAULT_CARDS ! 4, DEFAULT_CARDS ! 6, DEFAULT_CARDS ! 7, DEFAULT_CARDS ! 8]"
    by code_simp
  have n: "board ?s ''complete'' = None" by (simp add: four_columns_page_def COLUMNS_def)
  note t1 = T[THEN conjunct2, THEN spec, of "''to-learn''", unfolded f]
  have 1: "board (snd (renderBoard ?s)) ''to-learn'' =
       Some (map Card_element
         [DEFAULT_CARDS ! 4, DEFAULT_CARDS ! 6, DEFAULT_CARDS ! 7, DEFAULT_CARDS ! 8])"
    using t1 by (simp only: a simp_thms if_True)
  note t2 = T[THEN conjunct2, THEN spec, of "''complete''"]
  have 2: "board (snd (renderBoard ?s)) ''complete'' = None"
    using t2 b by (simp only: if_False n)
  from T[THEN conjunct1] 1 2 show ?thesis by (intro conjI)
qed

text \<open>
  C10 (a card whose column is not one of the four is silently left out, and every card
  with a valid column is shown in its column). The script breaks it for a column that
  names a property of \<^verbatim>\<open>Object.prototype\<close>: \<^verbatim>\<open>containers["constructor"]\<close> is
  a function, so the guard \<^verbatim>\<open>if (!container) return\<close> lets the card through and
  \<^verbatim>\<open>container.appendChild\<close> throws. With such a card stored before a card of
  \<^verbatim>\<open>to-learn\<close>, \<^verbatim>\<open>init\<close> ends with a TypeError and the valid card is not in its
  column.
\<close>

theorem inherited_column_name_breaks_render:
  "fst (init \<lparr>slot = Some (Json_text (JArr [
           JObj [(''id'', JStr ''x''), (''title'', JStr ''Odd''), (''description'', JStr []),
                 (''column'', JStr ''constructor''), (''tags'', JArr [])],
           JObj [(''id'', JStr ''y''), (''title'', JStr ''Fine''), (''description'', JStr []),
                 (''column'', JStr ''to-learn''), (''tags'', JArr [])]])),
         denied = False, full = False\<rparr> four_columns_page) = Some TypeError
   \<and> board (snd (init \<lparr>slot = Some (Json_text (JArr [
           JObj [(''id'', JStr ''x''), (''title'', JStr ''Odd''), (''description'', JStr []),
                 (''column'', JStr ''constructor''), (''tags'', JArr [])],
           JObj [(''id'', JStr ''y''), (''title'', JStr ''Fine''), (''description'', JStr []),
                 (''column'', JStr ''to-learn''), (''tags'', JArr [])]])),
         denied = False, full = False\<rparr> four_columns_page)) ''to-learn'' = Some []
   \<and> column_valid (JObj [(''id'', JStr ''y''), (''title'', JStr ''Fine''),
         (''description'', JStr []), (''column'', JStr ''to-learn''), (''tags'', JArr [])])
   \<and> \<not> column_valid (JObj [(''id'', JStr ''x''), (''title'', JStr ''Odd''),
         (''description'', JStr []), (''column'', JStr ''constructor''), (''tags'', JArr [])])"
  by code_simp

end
